theory Spec2Isabelle
  imports Complex_Main "HOL-Library.AList" "HOL-Library.List_Lexorder" "HOL-Library.Char_ord"
begin

section \<open>The instance state store of the model load balancer\<close>

text \<open>
  Source: \<^verbatim>\<open>src/app/core/model_load_balencer.py\<close>, class \<^verbatim>\<open>ModelLoadBalancer\<close>.

  Python numbers that may be floats (weights, times, load rates) are real numbers here.
  The arithmetic on the weights (the selector and the weight controller) is that of
  binary64: every sum, difference and product is rounded to the nearest double by \<open>fl\<close>,
  and the literals \<^verbatim>\<open>0.8\<close> and \<^verbatim>\<open>1.05\<close> are the doubles nearest to \<open>4/5\<close> and \<open>21/20\<close>. The
  load rate, the balance label and the snapshots are computed on the reals without
  rounding. Counters are integers.

  The two status strings the code writes (healthy, warning) are the constructors of
  \<open>status\<close>; the two balance labels (balanced, unbalanced) those of \<open>balance_label\<close>.
\<close>

datatype status = HEALTHY | WARNING

datatype balance_label = BALANCED | UNBALANCED

subsection \<open>Binary64 arithmetic\<close>

text \<open>
  A Python float is a binary64 number: an integer of at most 53 bits times a power of
  two whose exponent is at least \<open>-1074\<close>. The result of an arithmetic operation on floats
  is the exact result rounded to the nearest such number, to the one with the even
  integer when two are equally near. \<open>fl\<close> is this rounding. Overflow to infinity, which
  needs a magnitude of \<open>2 ^ 1024\<close>, is not part of the model. An operation on two Python
  ints is exact; \<open>fl\<close> leaves an integer below \<open>2 ^ 53\<close> as it is, so that the rounded
  operations below agree with Python's on ints of that size as well.
\<close>

definition pow2 :: "int \<Rightarrow> real" where
  "pow2 e = (if e \<ge> 0 then 2 ^ nat e else 1 / 2 ^ nat (- e))"

text \<open>The position of the leading bit of a positive integer: \<open>2 ^ ilog2 n \<le> n < 2 ^ (ilog2 n + 1)\<close>.\<close>

function ilog2 :: "int \<Rightarrow> nat" where
  "ilog2 n = (if n < 2 then 0 else Suc (ilog2 (n div 2)))"
  by pat_completeness auto
termination
  by (relation "measure nat") auto

declare ilog2.simps [simp del]

text \<open>The same for a positive real: \<open>pow2 (exponent_of a) \<le> a < pow2 (exponent_of a + 1)\<close>.\<close>

definition exponent_of :: "real \<Rightarrow> int" where
  "exponent_of a =
     (if a \<ge> 1 then int (ilog2 \<lfloor>a\<rfloor>)
      else
        let b = 1 / a;
            k = ilog2 \<lfloor>b\<rfloor>
        in if b = 2 ^ k then - int k else - int k - 1)"

definition round_half_even :: "real \<Rightarrow> int" where
  "round_half_even x =
     (let f = \<lfloor>x\<rfloor>
      in if x - real_of_int f < 1/2 then f
         else if x - real_of_int f > 1/2 then f + 1
         else if even f then f else f + 1)"

definition fl :: "real \<Rightarrow> real" where
  "fl x =
     (if x = 0 then 0
      else
        let a = \<bar>x\<bar>;
            q = max (exponent_of a - 52) (- 1074);
            m = round_half_even (a / pow2 q)
        in sgn x * real_of_int m * pow2 q)"

definition fadd :: "real \<Rightarrow> real \<Rightarrow> real" where
  "fadd x y = fl (x + y)"

definition fsub :: "real \<Rightarrow> real \<Rightarrow> real" where
  "fsub x y = fl (x - y)"

definition fmul :: "real \<Rightarrow> real \<Rightarrow> real" where
  "fmul x y = fl (x * y)"

subsection \<open>The store\<close>

text \<open>One entry of \<^verbatim>\<open>service_weights[model][name]\<close>.\<close>

record weights =
  current_weight :: real
  effective_weight :: real
  history_failures :: int

text \<open>
  One entry of \<^verbatim>\<open>service_metrics[model][name]\<close>. The source's keys, in its order:
  node name, IP address, status, balance label, load rate, token count, inference time,
  weight, \<^verbatim>\<open>node_id\<close>, \<^verbatim>\<open>active_requests\<close>, \<^verbatim>\<open>request_count\<close>, \<^verbatim>\<open>error_count\<close>,
  \<^verbatim>\<open>last_update\<close>, \<^verbatim>\<open>load_threshold\<close>, \<^verbatim>\<open>load_history\<close>.
\<close>

record metrics =
  node_name :: string
  ip_address :: string
  node_status :: status
  balance :: balance_label
  load_rate :: real
  token_total :: int
  inference_time :: real
  weight :: real
  node_id :: string
  active_requests :: int
  request_count :: int
  error_count :: int
  last_update :: real
  load_threshold :: real
  load_history :: "(real \<times> int) list"

text \<open>
  \<^verbatim>\<open>initialize\<close> is the only code that adds keys, and it adds every instance name to
  \<^verbatim>\<open>service_weights[model]\<close> and to \<^verbatim>\<open>service_metrics[model]\<close> together; an instance's two
  entries are therefore kept side by side in one record. A Python dict iterates in
  insertion order, so a dict is an association list: \<open>map_of\<close> reads a key,
  \<open>AList.update\<close> assigns one (in place when the key exists, at the end otherwise).
\<close>

record inst =
  wts :: weights
  mtr :: metrics

type_synonym instances = "(string \<times> inst) list"

type_synonym store = "(string \<times> instances) list"

subsection \<open>Exceptions\<close>

text \<open>
  The exceptions the modelled code raises or catches. The detail texts of the source are
  Chinese sentences built from a fixed phrase and a parameter; each phrase is a
  constructor of \<open>detail\<close> here: model not configured, no healthy node available,
  service unavailable (wrapping the text of the caught exception), and so on.
\<close>

datatype exn =
    HTTPException nat detail
  | NameError string
  | TypeError
  | AttributeError
  | KeyError
  | ValueError
  | ZeroDivisionError
  | RequestError
  | TimeoutException
  | ConnectionError
and detail =
    ModelNotConfigured string
  | NoHealthyNode string
  | ServiceUnavailable exn
  | UpstreamStatusError nat
  | ModelServiceError exn
  | InternalServerError exn
  | ModelTimeout

subsection \<open>Configuration and \<^verbatim>\<open>initialize\<close>\<close>

text \<open>
  One element of \<^verbatim>\<open>MODEL_INSTANCES[model]\<close>. The URL under the key \<^verbatim>\<open>ip\<close> is given by the
  two parts \<^verbatim>\<open>urlparse\<close> extracts from it, host name and port, as the f-string prints them.
  \<^verbatim>\<open>initial_weight\<close> and \<^verbatim>\<open>load_threshold\<close> are optional keys.
\<close>

record instance_cfg =
  cfg_name :: string
  cfg_hostname :: string
  cfg_port :: string
  cfg_initial_weight :: "real option"
  cfg_load_threshold :: "real option"

type_synonym config = "(string \<times> instance_cfg list) list"

definition new_inst :: "real \<Rightarrow> instance_cfg \<Rightarrow> inst" where
  "new_inst now c =
     (let initial_weight = (case cfg_initial_weight c of None \<Rightarrow> 20 | Some w \<Rightarrow> w)
      in \<lparr>wts = \<lparr>current_weight = initial_weight,
                  effective_weight = initial_weight,
                  history_failures = 0\<rparr>,
          mtr = \<lparr>node_name = cfg_name c,
                  ip_address = cfg_hostname c,
                  node_status = HEALTHY,
                  balance = BALANCED,
                  load_rate = 0,
                  token_total = 0,
                  inference_time = 0,
                  weight = initial_weight,
                  node_id = cfg_hostname c @ '':'' @ cfg_port c,
                  active_requests = 0,
                  request_count = 0,
                  error_count = 0,
                  last_update = now,
                  load_threshold = (case cfg_load_threshold c of None \<Rightarrow> 100 | Some t \<Rightarrow> t),
                  load_history = []\<rparr>\<rparr>)"

fun init_instances :: "real \<Rightarrow> instance_cfg list \<Rightarrow> instances \<Rightarrow> instances" where
  "init_instances now [] acc = acc"
| "init_instances now (c # cs) acc =
     init_instances now cs (AList.update (cfg_name c) (new_inst now c) acc)"

fun init_models :: "real \<Rightarrow> config \<Rightarrow> store \<Rightarrow> store" where
  "init_models now [] acc = acc"
| "init_models now ((model_name, cs) # rest) acc =
     init_models now rest (AList.update model_name (init_instances now cs []) acc)"

text \<open>\<^verbatim>\<open>initialize\<close> clears both dicts and rebuilds them; \<open>now\<close> is the reading of \<^verbatim>\<open>time.time()\<close>,
  one for all instances (the source reads the clock once for each).\<close>

definition initialize :: "real \<Rightarrow> config \<Rightarrow> store" where
  "initialize now cfg = init_models now cfg []"

subsection \<open>\<^verbatim>\<open>get_next_instance\<close>: the selector\<close>

text \<open>
  The loop variables of \<^verbatim>\<open>get_next_instance\<close>: \<^verbatim>\<open>total\<close>, the pair
  (\<^verbatim>\<open>get_node_id\<close>, \<^verbatim>\<open>best\<close>), which is \<open>None\<close> while \<^verbatim>\<open>best is None\<close>, and \<^verbatim>\<open>best_weight\<close>.
\<close>

record scan =
  total :: real
  best :: "(string \<times> string) option"
  best_weight :: real

text \<open>
  The loop over \<^verbatim>\<open>metrics_dict.items()\<close>. An instance that is not healthy is skipped. A
  healthy one has its effective weight added to its current weight; the new current
  weight is added to \<^verbatim>\<open>total\<close> (both additions are float additions when a weight is a float), and the instance becomes the best one when its current
  weight is greater than \<^verbatim>\<open>best_weight\<close>. The function returns the instances with their
  current weights updated, and the final loop variables.
\<close>

fun select_loop :: "instances \<Rightarrow> scan \<Rightarrow> instances \<times> scan" where
  "select_loop [] sc = ([], sc)"
| "select_loop ((k, i) # rest) sc =
     (if node_status (mtr i) \<noteq> HEALTHY then
        (case select_loop rest sc of (rest', sc') \<Rightarrow> ((k, i) # rest', sc'))
      else
        let cw = fadd (current_weight (wts i)) (effective_weight (wts i));
            i' = i\<lparr>wts := (wts i)\<lparr>current_weight := cw\<rparr>\<rparr>;
            sc1 = sc\<lparr>total := fadd (total sc) cw\<rparr>;
            sc2 = (if cw > best_weight sc1
                   then sc1\<lparr>best := Some (k, node_id (mtr i)), best_weight := cw\<rparr>
                   else sc1)
        in (case select_loop rest sc2 of (rest', sc') \<Rightarrow> ((k, i') # rest', sc')))"

definition scan0 :: scan where
  "scan0 = \<lparr>total = 0, best = None, best_weight = 0\<rparr>"

text \<open>
  The result is the raised exception or the returned pair (instance name, node id),
  together with the store the call leaves behind: the current weights written by the
  loop stay written when the call raises 503.
\<close>

definition get_next_instance :: "store \<Rightarrow> string \<Rightarrow> (exn + string \<times> string) \<times> store" where
  "get_next_instance st model_name =
     (case map_of st model_name of
        None \<Rightarrow> (Inl (HTTPException 404 (ModelNotConfigured model_name)), st)
      | Some insts \<Rightarrow>
          (case select_loop insts scan0 of
             (insts1, sc) \<Rightarrow>
               (case best sc of
                  None \<Rightarrow>
                    (Inl (HTTPException 503 (NoHealthyNode model_name)),
                     AList.update model_name insts1 st)
                | Some (get_node_id, b) \<Rightarrow>
                    let insts2 = AList.map_entry get_node_id
                          (\<lambda>i. i\<lparr>wts := (wts i)\<lparr>current_weight :=
                                   fsub (current_weight (wts i)) (total sc)\<rparr>\<rparr>) insts1;
                        insts3 = AList.map_entry get_node_id
                          (\<lambda>i. i\<lparr>mtr := (mtr i)\<lparr>active_requests :=
                                   active_requests (mtr i) + 1\<rparr>\<rparr>) insts2
                    in (Inr (get_node_id, b), AList.update model_name insts3 st))))"

subsection \<open>\<^verbatim>\<open>update_instance_metrics\<close>: the commit\<close>

text \<open>
  The load integral over the history sorted by time: each sample's load times the
  distance to the next sample, and the last sample's load up to \<open>current_time\<close>.
\<close>

fun segment_load :: "(real \<times> int) list \<Rightarrow> real" where
  "segment_load ((t1, load1) # (t2, load2) # rest) =
     real_of_int load1 * (t2 - t1) + segment_load ((t2, load2) # rest)"
| "segment_load _ = 0"

definition total_load :: "(real \<times> int) list \<Rightarrow> real \<Rightarrow> real" where
  "total_load history current_time =
     (let sorted_history = sort_key fst history
      in segment_load sorted_history +
         (case sorted_history of
            [] \<Rightarrow> 0
          | _ \<Rightarrow> real_of_int (snd (last sorted_history)) *
                 (current_time - fst (last sorted_history))))"

text \<open>
  The statements up to the assignment of \<^verbatim>\<open>last_update\<close>. The division by
  \<^verbatim>\<open>max_capacity\<close> raises \<^verbatim>\<open>ZeroDivisionError\<close> when the load threshold is 0; the fields
  written before it stay written, so the result is the exception, if any, and the entry
  as the statements leave it.
\<close>

definition update_load :: "real \<Rightarrow> real \<Rightarrow> int \<Rightarrow> metrics \<Rightarrow> exn option \<times> metrics" where
  "update_load current_time response_time token_count m =
     (let pre_update_active_requests = active_requests m;
          min_time = current_time - 30;
          m1 = m\<lparr>inference_time := response_time,
                 request_count := request_count m + 1,
                 token_total := token_total m + token_count,
                 active_requests := max 0 (active_requests m - 1),
                 load_history :=
                   filter (\<lambda>(t, l). t \<ge> min_time)
                     (load_history m @ [(current_time, pre_update_active_requests)])\<rparr>
      in if load_history m1 \<noteq> [] then
           let total_duration = current_time - min_time;
               avg_load = (if total_duration > 0
                           then total_load (load_history m1) current_time / total_duration
                           else 0);
               max_capacity = load_threshold m1
           in if max_capacity = 0 then (Some ZeroDivisionError, m1)
              else (None, m1\<lparr>load_rate := min 1 (avg_load / max_capacity),
                               last_update := current_time\<rparr>)
         else (None, m1\<lparr>load_rate := 0, last_update := current_time\<rparr>))"

text \<open>
  The weight controller: the branch on \<^verbatim>\<open>is_error\<close>, then the copy of the weight. The
  products \<^verbatim>\<open>effective_weight * 0.8\<close> and \<^verbatim>\<open>effective_weight * 1.05\<close> are float products.
\<close>

definition update_weights :: "bool \<Rightarrow> inst \<Rightarrow> inst" where
  "update_weights is_error i =
     (let i1 =
        (if is_error then
           let w1 = (wts i)\<lparr>effective_weight := max 5 (fmul (effective_weight (wts i)) (fl (4/5))),
                            history_failures := history_failures (wts i) + 1\<rparr>;
               m1 = (mtr i)\<lparr>error_count := error_count (mtr i) + 1\<rparr>
           in \<lparr>wts = w1,
               mtr = (if history_failures w1 > 3 then m1\<lparr>node_status := WARNING\<rparr> else m1)\<rparr>
         else
           i\<lparr>wts := (wts i)\<lparr>history_failures := 0,
                             effective_weight := min 100 (fmul (effective_weight (wts i)) (fl (21/20)))\<rparr>\<rparr>)
      in i1\<lparr>mtr := (mtr i1)\<lparr>weight := effective_weight (wts i1)\<rparr>\<rparr>)"

text \<open>
  The balance label of the committed instance, from the weights of the healthy instances
  of the model. The division by the average raises \<^verbatim>\<open>ZeroDivisionError\<close> when the average
  is 0.
\<close>

definition update_balance :: "instances \<Rightarrow> metrics \<Rightarrow> exn + metrics" where
  "update_balance insts m =
     (let ws = map (\<lambda>(k, i). weight (mtr i))
                 (filter (\<lambda>(k, i). node_status (mtr i) = HEALTHY) insts)
      in if ws = [] then Inr (m\<lparr>balance := UNBALANCED\<rparr>)
         else
           let avg_weight = sum_list ws / real (length ws)
           in if avg_weight = 0 then Inl ZeroDivisionError
              else
                let deviation = \<bar>weight m - avg_weight\<bar> / avg_weight
                in Inr (m\<lparr>balance := (if deviation < 1/5 then BALANCED else UNBALANCED)\<rparr>))"

text \<open>
  The result is the exception the call raises, if any, and the store it leaves behind.
  An unknown model or an unknown instance key returns at once.
\<close>

definition update_instance_metrics ::
  "store \<Rightarrow> real \<Rightarrow> string \<Rightarrow> string \<Rightarrow> real \<Rightarrow> bool \<Rightarrow> int \<Rightarrow> exn option \<times> store" where
  "update_instance_metrics st current_time model_name nid response_time is_error token_count =
     (case map_of st model_name of
        None \<Rightarrow> (None, st)
      | Some insts \<Rightarrow>
          (case map_of insts nid of
             None \<Rightarrow> (None, st)
           | Some i \<Rightarrow>
               (case update_load current_time response_time token_count (mtr i) of
                  (Some e, m1) \<Rightarrow>
                    (Some e, AList.update model_name (AList.update nid (i\<lparr>mtr := m1\<rparr>) insts) st)
                | (None, m1) \<Rightarrow>
                    let i2 = update_weights is_error (i\<lparr>mtr := m1\<rparr>);
                        insts2 = AList.update nid i2 insts
                    in (case update_balance insts2 (mtr i2) of
                          Inl e \<Rightarrow> (Some e, AList.update model_name insts2 st)
                        | Inr m3 \<Rightarrow>
                            (None,
                             AList.update model_name
                               (AList.update nid (i2\<lparr>mtr := m3\<rparr>) insts2) st)))))"

section \<open>Example configurations\<close>

text \<open>
  The model \<open>m\<close> of the specification's first scenario: instances \<open>A\<close> with weight 3 and
  \<open>B\<close> with weight 1, in this order; and the store \<^verbatim>\<open>initialize\<close> builds from it at time 0.
\<close>

definition cfg_A3 :: instance_cfg where
  "cfg_A3 = \<lparr>cfg_name = ''A'', cfg_hostname = ''10.0.0.1'', cfg_port = ''8000'',
              cfg_initial_weight = Some 3, cfg_load_threshold = None\<rparr>"

definition cfg_B1 :: instance_cfg where
  "cfg_B1 = \<lparr>cfg_name = ''B'', cfg_hostname = ''10.0.0.2'', cfg_port = ''8000'',
              cfg_initial_weight = Some 1, cfg_load_threshold = None\<rparr>"

definition store_A3_B1 :: store where
  "store_A3_B1 = initialize 0 [(''m'', [cfg_A3, cfg_B1])]"

section \<open>Reachable stores\<close>

text \<open>
  The stores the balancer can be in: what \<^verbatim>\<open>initialize\<close> builds, and what any call of
  \<^verbatim>\<open>get_next_instance\<close> or \<^verbatim>\<open>update_instance_metrics\<close> leaves behind.
\<close>

inductive reachable :: "store \<Rightarrow> bool" where
  reach_init: "reachable (initialize now cfg)"
| reach_select: "reachable st \<Longrightarrow> reachable (snd (get_next_instance st model_name))"
| reach_commit: "reachable st \<Longrightarrow>
     reachable (snd (update_instance_metrics st now model_name nid response_time is_error token_count))"

text \<open>What the selector's loop does to one instance.\<close>

definition bump :: "inst \<Rightarrow> inst" where
  "bump i = (if node_status (mtr i) \<noteq> HEALTHY then i
             else i\<lparr>wts := (wts i)\<lparr>current_weight :=
                    fadd (current_weight (wts i)) (effective_weight (wts i))\<rparr>\<rparr>)"

text \<open>A property of every instance entry of a store.\<close>

definition entries_ok :: "(inst \<Rightarrow> bool) \<Rightarrow> store \<Rightarrow> bool" where
  "entries_ok P st =
     (\<forall>model_name insts k i. map_of st model_name = Some insts \<longrightarrow> map_of insts k = Some i \<longrightarrow> P i)"

text \<open>A healthy instance has at most three consecutive failures on record.\<close>

definition failures_ok :: "inst \<Rightarrow> bool" where
  "failures_ok i = (node_status (mtr i) = HEALTHY \<longrightarrow> history_failures (wts i) \<le> 3)"

text \<open>
  The weight, the failure count and the status of an instance, as the store holds them.
\<close>

definition weight_view :: "store \<Rightarrow> string \<Rightarrow> string \<Rightarrow> (real \<times> int \<times> status) option" where
  "weight_view st model_name nid =
     (case map_of st model_name of
        None \<Rightarrow> None
      | Some insts \<Rightarrow>
          (case map_of insts nid of
             None \<Rightarrow> None
           | Some i \<Rightarrow>
               Some (effective_weight (wts i), history_failures (wts i), node_status (mtr i))))"

text \<open>
  The specification's second scenario: one instance \<open>A\<close> with the default weight 20, and
  error commits with a response time of 100 ms for it, at the times given.
\<close>

definition cfg_A20 :: instance_cfg where
  "cfg_A20 = \<lparr>cfg_name = ''A'', cfg_hostname = ''10.0.0.1'', cfg_port = ''8000'',
              cfg_initial_weight = None, cfg_load_threshold = None\<rparr>"

definition store_A20 :: store where
  "store_A20 = initialize 0 [(''m'', [cfg_A20])]"

definition error_commit :: "real \<Rightarrow> store \<Rightarrow> store" where
  "error_commit t st = snd (update_instance_metrics st t ''m'' ''A'' 100 True 0)"

definition three_errors :: store where
  "three_errors = error_commit 3 (error_commit 2 (error_commit 1 store_A20))"

section \<open>Sequences of selections\<close>

text \<open>\<open>n\<close> consecutive calls of \<^verbatim>\<open>get_next_instance\<close> for one model: the results, and the
  store after the last call.\<close>

fun selects :: "store \<Rightarrow> string \<Rightarrow> nat \<Rightarrow> (exn + string \<times> string) list \<times> store" where
  "selects st model_name 0 = ([], st)"
| "selects st model_name (Suc n) =
     (case get_next_instance st model_name of
        (r, st') \<Rightarrow> (case selects st' model_name n of (rs, st'') \<Rightarrow> (r # rs, st'')))"

text \<open>The instance names the calls return (\<open>None\<close> for a call that raises).\<close>

definition picks :: "store \<Rightarrow> string \<Rightarrow> nat \<Rightarrow> string option list" where
  "picks st model_name n =
     map (\<lambda>r. case r of Inl e \<Rightarrow> None | Inr (name, nid) \<Rightarrow> Some name)
       (fst (selects st model_name n))"

text \<open>The current weights of a model's instances, in the order of the configuration.\<close>

definition current_weights :: "store \<Rightarrow> string \<Rightarrow> real list" where
  "current_weights st model_name =
     (case map_of st model_name of
        None \<Rightarrow> []
      | Some insts \<Rightarrow> map (\<lambda>(k, i). current_weight (wts i)) insts)"

text \<open>The healthy instances of a model, and the current weight the loop gives one (a
  float addition when a weight is a float).\<close>

definition healthy_of :: "instances \<Rightarrow> instances" where
  "healthy_of insts = filter (\<lambda>(k, i). node_status (mtr i) = HEALTHY) insts"

definition new_weight :: "inst \<Rightarrow> real" where
  "new_weight i = fadd (current_weight (wts i)) (effective_weight (wts i))"

text \<open>
  The total of the loop: the incremented current weights of the healthy instances, added
  up in the configured order.
\<close>

definition incremented_total :: "instances \<Rightarrow> real" where
  "incremented_total insts = foldl fadd 0 (map (\<lambda>(k, i). new_weight i) (healthy_of insts))"

text \<open>
  The selection step in the specification's words, for the chosen instance \<open>j\<close> and the
  total \<open>tot\<close>: every healthy instance has its effective weight added to its current
  weight; the chosen one has \<open>tot\<close> subtracted from it and its active requests incremented.
\<close>

definition spec_swrr_step :: "string \<Rightarrow> real \<Rightarrow> instances \<Rightarrow> instances" where
  "spec_swrr_step j tot insts =
     map (\<lambda>(k, i).
            (k, if node_status (mtr i) \<noteq> HEALTHY then i
                else if k = j then
                  i\<lparr>wts := (wts i)\<lparr>current_weight := fsub (new_weight i) tot\<rparr>,
                    mtr := (mtr i)\<lparr>active_requests := active_requests (mtr i) + 1\<rparr>\<rparr>
                else i\<lparr>wts := (wts i)\<lparr>current_weight := new_weight i\<rparr>\<rparr>))
       insts"

text \<open>
  Two instances \<open>A\<close> and \<open>B\<close> with the default weight 20: one selection, then four error
  commits for \<open>B\<close>.
\<close>

definition cfg_B20 :: instance_cfg where
  "cfg_B20 = \<lparr>cfg_name = ''B'', cfg_hostname = ''10.0.0.2'', cfg_port = ''8000'',
              cfg_initial_weight = None, cfg_load_threshold = None\<rparr>"

definition store_A20_B20 :: store where
  "store_A20_B20 = initialize 0 [(''m'', [cfg_A20, cfg_B20])]"

definition error_commit_B :: "real \<Rightarrow> store \<Rightarrow> store" where
  "error_commit_B t st = snd (update_instance_metrics st t ''m'' ''B'' 100 True 0)"

definition B_failed :: store where
  "B_failed = error_commit_B 4 (error_commit_B 3 (error_commit_B 2 (error_commit_B 1
                (snd (get_next_instance store_A20_B20 ''m'')))))"

section \<open>The proxy handler\<close>

text \<open>
  Source: \<^verbatim>\<open>src/app/api/model_base.py\<close>, function \<^verbatim>\<open>model_request\<close> and its nested generator
  \<^verbatim>\<open>generate\<close>.
\<close>

subsection \<open>Python values read from JSON\<close>

text \<open>
  What \<^verbatim>\<open>json.loads\<close> returns: \<^verbatim>\<open>None\<close>, a bool, an int, a str, a list or a dict (keys in
  insertion order, each key once). JSON numbers with a fraction or an exponent, which
  Python reads as floats, are outside the model. A str is given by its UTF-8 bytes.
\<close>

datatype json =
    JNull
  | JBool bool
  | JInt int
  | JStr string
  | JList "json list"
  | JObj "(string \<times> json) list"

text \<open>
  The library functions the handler calls, taken as parameters: \<^verbatim>\<open>bytes.decode('utf-8')\<close>
  (\<open>None\<close> for \<^verbatim>\<open>UnicodeDecodeError\<close>; the decoded text is given by its UTF-8 bytes),
  \<^verbatim>\<open>str.strip\<close>, \<^verbatim>\<open>json.loads\<close> (\<open>None\<close> for \<^verbatim>\<open>JSONDecodeError\<close>), \<^verbatim>\<open>re.search\<close> for the
  pattern \<^verbatim>\<open>"<key>":\s*(\d+)\<close> followed by \<^verbatim>\<open>int\<close> of the group (\<open>None\<close> for no match), and
  \<^verbatim>\<open>int\<close> of a bytes value (\<open>None\<close> for \<^verbatim>\<open>ValueError\<close>).
\<close>

record lib =
  utf8_decode :: "string \<Rightarrow> string option"
  str_strip :: "string \<Rightarrow> string"
  json_loads :: "string \<Rightarrow> json option"
  re_search_int :: "string \<Rightarrow> string \<Rightarrow> int option"
  int_of_bytes :: "string \<Rightarrow> int option"

text \<open>The index of the first occurrence of \<open>needle\<close> in a list, as \<^verbatim>\<open>find\<close> gives it.\<close>

fun find_sub :: "'a list \<Rightarrow> 'a list \<Rightarrow> nat option" where
  "find_sub needle [] = (if needle = [] then Some 0 else None)"
| "find_sub needle (h # t) =
     (if take (length needle) (h # t) = needle then Some 0
      else map_option Suc (find_sub needle t))"

text \<open>\<^verbatim>\<open>hay.find(needle, start)\<close>.\<close>

definition find_from :: "'a list \<Rightarrow> 'a list \<Rightarrow> nat \<Rightarrow> nat option" where
  "find_from needle hay start = map_option (\<lambda>p. p + start) (find_sub needle (drop start hay))"

text \<open>\<^verbatim>\<open>key in value\<close> for a str key: membership in a dict's keys, substring of a str,
  element of a list; \<^verbatim>\<open>TypeError\<close> for \<^verbatim>\<open>None\<close>, a bool or an int.\<close>

fun py_in :: "string \<Rightarrow> json \<Rightarrow> exn + bool" where
  "py_in key (JObj kv) = Inr (map_of kv key \<noteq> None)"
| "py_in key (JStr s) = Inr (find_sub key s \<noteq> None)"
| "py_in key (JList xs) = Inr (JStr key \<in> set xs)"
| "py_in key v = Inl TypeError"

text \<open>\<^verbatim>\<open>value[key]\<close> for a str key.\<close>

fun py_getitem :: "json \<Rightarrow> string \<Rightarrow> exn + json" where
  "py_getitem (JObj kv) key = (case map_of kv key of None \<Rightarrow> Inl KeyError | Some v \<Rightarrow> Inr v)"
| "py_getitem v key = Inl TypeError"

text \<open>\<^verbatim>\<open>value.get(key, default)\<close>: only a dict has the method.\<close>

fun py_get :: "json \<Rightarrow> string \<Rightarrow> json \<Rightarrow> exn + json" where
  "py_get (JObj kv) key dflt = (case map_of kv key of None \<Rightarrow> Inr dflt | Some v \<Rightarrow> Inr v)"
| "py_get v key dflt = Inl AttributeError"

text \<open>A bool is an int in arithmetic.\<close>

fun as_int :: "json \<Rightarrow> int option" where
  "as_int (JInt n) = Some n"
| "as_int (JBool b) = Some (if b then 1 else 0)"
| "as_int v = None"

text \<open>\<^verbatim>\<open>a + b\<close>.\<close>

fun py_add :: "json \<Rightarrow> json \<Rightarrow> exn + json" where
  "py_add (JStr a) (JStr b) = Inr (JStr (a @ b))"
| "py_add (JList a) (JList b) = Inr (JList (a @ b))"
| "py_add a b =
     (case (as_int a, as_int b) of
        (Some x, Some y) \<Rightarrow> Inr (JInt (x + y))
      | _ \<Rightarrow> Inl TypeError)"

text \<open>The truth value of a Python value.\<close>

fun py_truthy :: "json \<Rightarrow> bool" where
  "py_truthy JNull = False"
| "py_truthy (JBool b) = b"
| "py_truthy (JInt n) = (n \<noteq> 0)"
| "py_truthy (JStr s) = (s \<noteq> [])"
| "py_truthy (JList xs) = (xs \<noteq> [])"
| "py_truthy (JObj kv) = (kv \<noteq> [])"

text \<open>\<^verbatim>\<open>value == 0\<close>.\<close>

fun py_is_zero :: "json \<Rightarrow> bool" where
  "py_is_zero (JInt n) = (n = 0)"
| "py_is_zero (JBool b) = (\<not> b)"
| "py_is_zero v = False"

subsection \<open>The byte scan for a token field\<close>

definition newline :: char where
  "newline = CHR 0x0A"

text \<open>The bytes \<^verbatim>\<open>bytes.strip()\<close> removes: space, tab, line feed, carriage return, vertical
  tab, form feed.\<close>

definition is_bytes_space :: "char \<Rightarrow> bool" where
  "is_bytes_space c = (c \<in> set [CHR 0x20, CHR 0x09, CHR 0x0A, CHR 0x0D, CHR 0x0B, CHR 0x0C])"

definition bytes_strip :: "string \<Rightarrow> string" where
  "bytes_strip bs = rev (dropWhile is_bytes_space (rev (dropWhile is_bytes_space bs)))"

text \<open>\<^verbatim>\<open>bs[start:stop]\<close> for \<open>start \<ge> 0\<close>; a negative \<open>stop\<close> counts from the end.\<close>

definition py_slice :: "'a list \<Rightarrow> nat \<Rightarrow> int \<Rightarrow> 'a list" where
  "py_slice bs start stop =
     (let n = int (length bs);
          stop' = (if stop < 0 then max 0 (n + stop) else min stop n)
      in take (nat stop' - start) (drop start bs))"

text \<open>
  The scan both paths use for \<^verbatim>\<open>"prompt_eval_count":\<close> and \<^verbatim>\<open>"eval_count":\<close>: when the key
  occurs, the bytes from behind its first occurrence up to the next comma (or, without
  one, the next closing brace; or, without either, all but the last byte) are stripped
  and given to \<^verbatim>\<open>int\<close>, which may raise \<^verbatim>\<open>ValueError\<close>. \<open>None\<close>: the key does not occur.
\<close>

definition scan_field :: "lib \<Rightarrow> string \<Rightarrow> string \<Rightarrow> exn + int option" where
  "scan_field L key content =
     (case find_sub key content of
        None \<Rightarrow> Inr None
      | Some p \<Rightarrow>
          let start_idx = p + length key;
              end_idx = (case find_from '','' content start_idx of
                           Some e \<Rightarrow> int e
                         | None \<Rightarrow>
                             (case find_from ''}'' content start_idx of
                                Some e \<Rightarrow> int e
                              | None \<Rightarrow> - 1))
          in (case int_of_bytes L (bytes_strip (py_slice content start_idx end_idx)) of
                None \<Rightarrow> Inl ValueError
              | Some n \<Rightarrow> Inr (Some n)))"

definition prompt_key :: string where
  \<open>prompt_key = ''"prompt_eval_count":''\<close>

definition eval_key :: string where
  \<open>eval_key = ''"eval_count":''\<close>

subsection \<open>\<^verbatim>\<open>generate\<close>: the stream tee\<close>

text \<open>
  The token accounting of one parsed object \<^verbatim>\<open>data\<close>, on the pair
  (\<^verbatim>\<open>token_count\<close>, \<^verbatim>\<open>final_token_count\<close>); \<^verbatim>\<open>final_token_count\<close> is \<open>JNull\<close> while it is
  \<^verbatim>\<open>None\<close>. The result is the exception raised, if any, and the pair as the statements
  leave it.

  First \<^verbatim>\<open>if "metadata" in data and "usage" in data["metadata"]\<close>: the usage record under
  \<^verbatim>\<open>metadata\<close>, if the condition holds.
\<close>

type_synonym acct = "int \<times> json"

definition metadata_usage :: "json \<Rightarrow> exn + json option" where
  "metadata_usage data =
     (case py_in ''metadata'' data of
        Inl e \<Rightarrow> Inl e
      | Inr False \<Rightarrow> Inr None
      | Inr True \<Rightarrow>
          (case py_getitem data ''metadata'' of
             Inl e \<Rightarrow> Inl e
           | Inr md \<Rightarrow>
               (case py_in ''usage'' md of
                  Inl e \<Rightarrow> Inl e
                | Inr False \<Rightarrow> Inr None
                | Inr True \<Rightarrow>
                    (case py_getitem md ''usage'' of
                       Inl e \<Rightarrow> Inl e
                     | Inr usage \<Rightarrow> Inr (Some usage)))))"

text \<open>\<^verbatim>\<open>"prompt_eval_count" in data and "eval_count" in data\<close>.\<close>

definition has_counts :: "json \<Rightarrow> exn + bool" where
  "has_counts data =
     (case py_in ''prompt_eval_count'' data of
        Inl e \<Rightarrow> Inl e
      | Inr False \<Rightarrow> Inr False
      | Inr True \<Rightarrow> py_in ''eval_count'' data)"

text \<open>\<^verbatim>\<open>token_count += data.get("prompt_eval_count", 0) + data.get("eval_count", 0)\<close>.\<close>

definition add_counts :: "json \<Rightarrow> int \<Rightarrow> exn + int" where
  "add_counts data token_count =
     (case py_get data ''prompt_eval_count'' (JInt 0) of
        Inl e \<Rightarrow> Inl e
      | Inr a \<Rightarrow>
          (case py_get data ''eval_count'' (JInt 0) of
             Inl e \<Rightarrow> Inl e
           | Inr b \<Rightarrow>
               (case py_add a b of
                  Inl e \<Rightarrow> Inl e
                | Inr s \<Rightarrow>
                    (case as_int s of
                       None \<Rightarrow> Inl TypeError
                     | Some n \<Rightarrow> Inr (token_count + n)))))"

definition account :: "json \<Rightarrow> acct \<Rightarrow> exn option \<times> acct" where
  "account data a =
     (case a of (token_count, final_token_count) \<Rightarrow>
        (case metadata_usage data of
           Inl e \<Rightarrow> (Some e, a)
         | Inr mu \<Rightarrow>
             (case (case mu of
                      None \<Rightarrow> Inr final_token_count
                    | Some usage \<Rightarrow> py_get usage ''total_tokens'' (JInt 0)) of
                Inl e \<Rightarrow> (Some e, a)
              | Inr final1 \<Rightarrow>
                  (case py_in ''usage'' data of
                     Inl e \<Rightarrow> (Some e, (token_count, final1))
                   | Inr True \<Rightarrow>
                       (case py_getitem data ''usage'' of
                          Inl e \<Rightarrow> (Some e, (token_count, final1))
                        | Inr usage \<Rightarrow>
                            (case py_get usage ''total_tokens'' (JInt 0) of
                               Inl e \<Rightarrow> (Some e, (token_count, final1))
                             | Inr final2 \<Rightarrow> (None, (token_count, final2))))
                   | Inr False \<Rightarrow>
                       (case has_counts data of
                          Inl e \<Rightarrow> (Some e, (token_count, final1))
                        | Inr False \<Rightarrow> (None, (token_count, final1))
                        | Inr True \<Rightarrow>
                            (case add_counts data token_count of
                               Inl e \<Rightarrow> (Some e, (token_count, final1))
                             | Inr token_count' \<Rightarrow> (None, (token_count', final1))))))))"

text \<open>
  One line of the decoded buffer. Only a line that starts with \<^verbatim>\<open>data: \<close> is looked at;
  its rest, stripped, is parsed as JSON; when that fails, the two counts are searched
  with the regular expression.
\<close>

definition data_prefix :: string where
  "data_prefix = ''data: ''"

definition process_line :: "lib \<Rightarrow> string \<Rightarrow> acct \<Rightarrow> exn option \<times> acct" where
  "process_line L line a =
     (if take (length data_prefix) line = data_prefix then
        let json_str = str_strip L (drop 6 line)
        in (case json_loads L json_str of
              Some data \<Rightarrow> account data a
            | None \<Rightarrow>
                (case a of (token_count, final_token_count) \<Rightarrow>
                   (None,
                    (token_count
                       + (case re_search_int L ''prompt_eval_count'' json_str of
                            None \<Rightarrow> 0 | Some n \<Rightarrow> n)
                       + (case re_search_int L ''eval_count'' json_str of
                            None \<Rightarrow> 0 | Some n \<Rightarrow> n),
                     final_token_count))))
      else (None, a))"

text \<open>
  The loop \<^verbatim>\<open>while '\n' in decoded_buffer\<close>: a line is cut off at the first line feed and
  processed. The result is the exception and the accounting at the raise, or the rest
  of the buffer and the accounting.
\<close>

function drain :: "lib \<Rightarrow> string \<Rightarrow> acct \<Rightarrow> (exn \<times> acct) + (string \<times> acct)" where
  "drain L decoded_buffer a =
     (if newline \<in> set decoded_buffer then
        let line = takeWhile (\<lambda>c. c \<noteq> newline) decoded_buffer;
            rest = tl (dropWhile (\<lambda>c. c \<noteq> newline) decoded_buffer)
        in (case process_line L line a of
              (Some e, a') \<Rightarrow> Inl (e, a')
            | (None, a') \<Rightarrow> drain L rest a')
      else Inr (decoded_buffer, a))"
  by pat_completeness auto
termination
proof (relation "measure (\<lambda>(L, decoded_buffer, a). length decoded_buffer)")
  show "wf (measure (\<lambda>(L, decoded_buffer, a). length decoded_buffer))"
    by simp
next
  fix L :: lib and decoded_buffer :: string and a :: acct and x xa x2 y
  assume nl: "newline \<in> set decoded_buffer"
    and xa: "xa = tl (dropWhile (\<lambda>c. c \<noteq> newline) decoded_buffer)"
  from nl have "dropWhile (\<lambda>c. c \<noteq> newline) decoded_buffer \<noteq> []"
    by (auto simp: dropWhile_eq_Nil_conv)
  moreover have "length (dropWhile (\<lambda>c. c \<noteq> newline) decoded_buffer) \<le> length decoded_buffer"
    by (rule length_dropWhile_le)
  ultimately have "length xa < length decoded_buffer"
    unfolding xa by (cases "dropWhile (\<lambda>c. c \<noteq> newline) decoded_buffer") auto
  then show "((L, xa, y), (L, decoded_buffer, a))
               \<in> measure (\<lambda>(L, decoded_buffer, a). length decoded_buffer)"
    by simp
qed

text \<open>
  The variables of \<^verbatim>\<open>generate\<close> that outlive a chunk: the accounting, the decoded buffer
  and the collected raw chunks.
\<close>

record tee_state =
  accounting :: acct
  decoded_buffer :: string
  collected_content :: "string list"

definition tee_state0 :: tee_state where
  "tee_state0 = \<lparr>accounting = (0, JNull), decoded_buffer = [], collected_content = []\<rparr>"

text \<open>
  The loop \<^verbatim>\<open>for chunk in response.iter_content()\<close>. An empty chunk is skipped. A chunk is
  collected, decoded, appended to the buffer, the buffer is drained, and then the chunk
  is yielded; a chunk that fails to decode is collected a second time and yielded. An
  exception of the parser leaves the loop before the chunk is yielded. \<open>stream_error\<close> is
  what the iterator raises after its last chunk, if anything. The result: the chunks
  yielded, the exception that left the loop, and the variables.
\<close>

fun tee :: "lib \<Rightarrow> string list \<Rightarrow> exn option \<Rightarrow> tee_state \<Rightarrow> string list \<times> exn option \<times> tee_state" where
  "tee L [] stream_error s = ([], stream_error, s)"
| "tee L (chunk # chunks) stream_error s =
     (if chunk = [] then tee L chunks stream_error s
      else
        let s1 = s\<lparr>collected_content := collected_content s @ [chunk]\<rparr>
        in (case utf8_decode L chunk of
              None \<Rightarrow>
                (case tee L chunks stream_error
                        (s1\<lparr>collected_content := collected_content s1 @ [chunk]\<rparr>) of
                   (ys, r) \<Rightarrow> (chunk # ys, r))
            | Some chunk_str \<Rightarrow>
                (case drain L (decoded_buffer s1 @ chunk_str) (accounting s1) of
                   Inl (e, a') \<Rightarrow> ([], Some e, s1\<lparr>accounting := a'\<rparr>)
                 | Inr (buf, a') \<Rightarrow>
                     (case tee L chunks stream_error
                             (s1\<lparr>accounting := a', decoded_buffer := buf\<rparr>) of
                        (ys, r) \<Rightarrow> (chunk # ys, r)))))"

text \<open>
  The scan of the \<^verbatim>\<open>finally\<close> block over the collected bytes, entered when the token
  count is 0: each count found is added; an exception ends the scan and keeps what was
  added before it.
\<close>

definition scan_collected :: "lib \<Rightarrow> string \<Rightarrow> int" where
  "scan_collected L full_content =
     (case scan_field L prompt_key full_content of
        Inl e \<Rightarrow> 0
      | Inr p \<Rightarrow>
          (let prompt_tokens = (case p of None \<Rightarrow> 0 | Some n \<Rightarrow> n)
           in (case scan_field L eval_key full_content of
                 Inl e \<Rightarrow> prompt_tokens
               | Inr c \<Rightarrow> prompt_tokens + (case c of None \<Rightarrow> 0 | Some n \<Rightarrow> n))))"

text \<open>The token count of the \<^verbatim>\<open>finally\<close> block.\<close>

definition final_tokens :: "lib \<Rightarrow> tee_state \<Rightarrow> json" where
  "final_tokens L s =
     (case accounting s of (token_count, final_token_count) \<Rightarrow>
        let tok = (if final_token_count \<noteq> JNull then final_token_count else JInt token_count)
        in if py_is_zero tok then JInt (scan_collected L (concat (collected_content s)))
           else tok)"

text \<open>
  The commit with the token count of a stream, which need not be a number. A str, a list
  or a dict makes the addition to the token total raise \<^verbatim>\<open>TypeError\<close>, after the
  inference time and the request count of a known instance have been written.
\<close>

definition commit_tokens ::
  "store \<Rightarrow> real \<Rightarrow> string \<Rightarrow> string \<Rightarrow> real \<Rightarrow> bool \<Rightarrow> json \<Rightarrow> exn option \<times> store" where
  "commit_tokens st current_time model_name nid response_time is_error tok =
     (case as_int tok of
        Some n \<Rightarrow> update_instance_metrics st current_time model_name nid response_time is_error n
      | None \<Rightarrow>
          (case map_of st model_name of
             None \<Rightarrow> (None, st)
           | Some insts \<Rightarrow>
               (case map_of insts nid of
                  None \<Rightarrow> (None, st)
                | Some i \<Rightarrow>
                    (Some TypeError,
                     AList.update model_name
                       (AList.update nid
                          (i\<lparr>mtr := (mtr i)\<lparr>inference_time := response_time,
                                             request_count := request_count (mtr i) + 1\<rparr>\<rparr>)
                          insts)
                       st))))"

text \<open>
  The readings of \<^verbatim>\<open>time.time()\<close> during one request: at the start of the handler, at the
  start and in the \<^verbatim>\<open>finally\<close> block of the generator, in the handler's \<^verbatim>\<open>except\<close> block,
  and inside the commit.
\<close>

record clock =
  start_time :: real
  gen_start_time :: real
  gen_end_time :: real
  except_time :: real
  commit_time :: real

text \<open>
  An upstream response: status, headers and the chunks of the body, with the exception
  the body iterator raises after them, if any.
\<close>

record upstream_response =
  up_status :: nat
  up_headers :: "(string \<times> string) list"
  up_chunks :: "string list"
  up_stream_error :: "exn option"

text \<open>
  \<^verbatim>\<open>response.headers.get(key, default)\<close>: the headers of a \<^verbatim>\<open>requests\<close> response are a
  case-insensitive dict, so the name is compared without regard to the case of its ASCII
  letters.
\<close>

definition lower_char :: "char \<Rightarrow> char" where
  "lower_char c =
     (let n = of_char c :: nat
      in if 65 \<le> n \<and> n \<le> 90 then char_of (n + 32) else c)"

definition headers_get :: "(string \<times> string) list \<Rightarrow> string \<Rightarrow> string \<Rightarrow> string" where
  "headers_get hs key dflt =
     (case find (\<lambda>(k, v). map lower_char k = map lower_char key) hs of
        None \<Rightarrow> dflt
      | Some (k, v) \<Rightarrow> v)"

text \<open>
  \<^verbatim>\<open>generate\<close>, run to its end by a client that reads the whole stream: the chunks yielded,
  the exception the generator ends with, and the store after the commit of the
  \<^verbatim>\<open>finally\<close> block. An exception of the commit replaces the one of the loop.
\<close>

definition generate ::
  "lib \<Rightarrow> clock \<Rightarrow> store \<Rightarrow> string \<Rightarrow> string \<Rightarrow> upstream_response
     \<Rightarrow> (string list \<times> exn option) \<times> store" where
  "generate L clk st model_name nid response =
     (case tee L (up_chunks response) (up_stream_error response) tee_state0 of
        (ys, raised, s) \<Rightarrow>
          let error_occurred = (raised \<noteq> None);
              resp_time = real_of_int
                \<lceil>(gen_end_time clk - gen_start_time clk) * 1000 * 100\<rceil> / 100;
              token_count = final_tokens L s
          in (case commit_tokens st (commit_time clk) model_name nid resp_time
                     (error_occurred \<or> up_status response \<ge> 400) token_count of
                (Some e, st') \<Rightarrow> ((ys, Some e), st')
              | (None, st') \<Rightarrow> ((ys, raised), st')))"

subsection \<open>\<^verbatim>\<open>model_request\<close>\<close>

text \<open>
  What the request contributes: the result of \<^verbatim>\<open>request.json()\<close> (\<open>None\<close> when it raises).
  Method, path, query, headers and body are passed on to the upstream unchanged and do
  not influence the handler otherwise. What the upstream call does is an input: it
  raises, or it returns a response.
\<close>

datatype upstream = Raises exn | Responds upstream_response

text \<open>
  What the caller gets: an exception raised out of the handler (an \<^verbatim>\<open>HTTPException\<close> is
  answered with its status code), a \<^verbatim>\<open>Response\<close> with status, headers and body, or a
  \<^verbatim>\<open>StreamingResponse\<close> with status and media type whose body is the chunks the generator
  yields, and the exception it ends with.
\<close>

datatype http_result =
    Raised exn
  | Response nat "(string \<times> string) list" string
  | StreamingResponse nat string "string list" "exn option"

text \<open>\<^verbatim>\<open>is_streaming = request_data.get("stream", False)\<close>, \<^verbatim>\<open>False\<close> when the body is not JSON
  or the call of \<^verbatim>\<open>get\<close> raises.\<close>

definition is_streaming :: "json option \<Rightarrow> bool" where
  "is_streaming request_json =
     (case request_json of
        None \<Rightarrow> False
      | Some request_data \<Rightarrow>
          (case py_get request_data ''stream'' (JBool False) of
             Inl e \<Rightarrow> False
           | Inr v \<Rightarrow> py_truthy v))"

text \<open>\<^verbatim>\<open>httpx.TimeoutException\<close> is a subclass of \<^verbatim>\<open>httpx.RequestError\<close>.\<close>

definition is_httpx_request_error :: "exn \<Rightarrow> bool" where
  "is_httpx_request_error e = (e = RequestError \<or> e = TimeoutException)"

text \<open>The two inner \<^verbatim>\<open>except\<close> clauses, the same on both paths.\<close>

definition inner_except :: "exn \<Rightarrow> exn" where
  "inner_except e =
     (if is_httpx_request_error e then HTTPException 502 (ModelServiceError e)
      else HTTPException 500 (InternalServerError e))"

text \<open>
  The statements of the unary path between the upstream call and the commit. The scan
  for the prompt count may raise \<^verbatim>\<open>ValueError\<close>. The next statement reads the name
  \<^verbatim>\<open>data\<close>, which is bound neither in \<^verbatim>\<open>model_request\<close> (the assignment to \<^verbatim>\<open>data\<close> is inside
  \<^verbatim>\<open>generate\<close>) nor in the module, so it raises \<^verbatim>\<open>NameError\<close>; the statements behind it
  (the scan for the completion count, the commit, the \<^verbatim>\<open>Response\<close>) are never reached.
\<close>

definition unary_tokens :: "lib \<Rightarrow> string \<Rightarrow> exn" where
  "unary_tokens L response_content =
     (case scan_field L prompt_key response_content of
        Inl e \<Rightarrow> e
      | Inr p \<Rightarrow> NameError ''data'')"

text \<open>
  The outer \<^verbatim>\<open>except\<close> clause: a commit for \<^verbatim>\<open>instance_id\<close> (the node identifier) with
  \<^verbatim>\<open>is_error=True\<close>, then the answer for the exception.
\<close>

definition outer_except ::
  "clock \<Rightarrow> store \<Rightarrow> string \<Rightarrow> string \<Rightarrow> exn \<Rightarrow> http_result \<times> store" where
  "outer_except clk st model_name instance_id e =
     (let resp_time = (except_time clk - start_time clk) * 1000
      in (case update_instance_metrics st (commit_time clk) model_name instance_id
                 resp_time True 0 of
            (Some e', st') \<Rightarrow> (Raised e', st')
          | (None, st') \<Rightarrow>
              ((if e = TimeoutException then Raised (HTTPException 504 ModelTimeout)
                else (case e of
                        HTTPException code d \<Rightarrow> Raised e
                      | _ \<Rightarrow> Raised (HTTPException 500 (InternalServerError e)))),
               st')))"

definition model_request ::
  "lib \<Rightarrow> clock \<Rightarrow> store \<Rightarrow> string \<Rightarrow> json option \<Rightarrow> upstream \<Rightarrow> http_result \<times> store" where
  "model_request L clk st model_name request_json up =
     (case get_next_instance st model_name of
        (Inl e, st1) \<Rightarrow> (Raised (HTTPException 503 (ServiceUnavailable e)), st1)
      | (Inr (nid, instance_id), st1) \<Rightarrow>
          (if is_streaming request_json then
             (case up of
                Raises e \<Rightarrow> outer_except clk st1 model_name instance_id (inner_except e)
              | Responds response \<Rightarrow>
                  (if up_status response \<noteq> 200 then
                     outer_except clk st1 model_name instance_id
                       (inner_except
                          (HTTPException (up_status response)
                             (UpstreamStatusError (up_status response))))
                   else
                     (case generate L clk st1 model_name nid response of
                        ((ys, raised), st2) \<Rightarrow>
                          (StreamingResponse (up_status response)
                             (headers_get (up_headers response) ''Content-Type''
                                ''text/event-stream'')
                             ys raised,
                           st2))))
           else
             (case up of
                Raises e \<Rightarrow> outer_except clk st1 model_name instance_id (inner_except e)
              | Responds response \<Rightarrow>
                  outer_except clk st1 model_name instance_id
                    (inner_except (unary_tokens L (concat (up_chunks response)))))))"

section \<open>Example requests\<close>

text \<open>
  A library for the examples. It agrees with Python's on the inputs the examples give it:
  byte strings of ASCII characters decode to themselves, texts without surrounding white
  space are stripped to themselves, a byte string of decimal digits is read as its
  number, and the JSON texts of the examples are read as the objects they denote. No
  example reaches the regular-expression search.
\<close>

definition ascii_decode :: "string \<Rightarrow> string option" where
  "ascii_decode bs = (if \<forall>c\<in>set bs. (of_char c :: nat) < 128 then Some bs else None)"

fun digits_value :: "string \<Rightarrow> nat \<Rightarrow> nat option" where
  "digits_value [] acc = Some acc"
| "digits_value (c # cs) acc =
     (if (48::nat) \<le> of_char c \<and> of_char c \<le> (57::nat)
      then digits_value cs (10 * acc + (of_char c - 48))
      else None)"

definition ascii_int :: "string \<Rightarrow> int option" where
  "ascii_int bs = (if bs = [] then None else map_option int (digits_value bs 0))"

definition example_loads :: "string \<Rightarrow> json option" where
  \<open>example_loads = map_of
     [(''{"id":"x"}'', JObj [(''id'', JStr ''x'')]),
      (''{"prompt_eval_count":7,"eval_count":5}'',
         JObj [(''prompt_eval_count'', JInt 7), (''eval_count'', JInt 5)]),
      (''{"usage":{"total_tokens":99}}'', JObj [(''usage'', JObj [(''total_tokens'', JInt 99)])]),
      (''{"metadata":{"usage":{"total_tokens":42}}}'',
         JObj [(''metadata'', JObj [(''usage'', JObj [(''total_tokens'', JInt 42)])])]),
      (''{"metadata":{"usage":{"total_tokens":0}}}'',
         JObj [(''metadata'', JObj [(''usage'', JObj [(''total_tokens'', JInt 0)])])]),
      (''{"metadata":{"usage":{"total_tokens":42}},"usage":{"total_tokens":9}}'',
         JObj [(''metadata'', JObj [(''usage'', JObj [(''total_tokens'', JInt 42)])]),
               (''usage'', JObj [(''total_tokens'', JInt 9)])]),
      (''{"usage":null}'', JObj [(''usage'', JNull)])]\<close>

definition example_lib :: lib where
  "example_lib = \<lparr>utf8_decode = ascii_decode, str_strip = bytes_strip,
                   json_loads = example_loads, re_search_int = (\<lambda>key text. None),
                   int_of_bytes = ascii_int\<rparr>"

text \<open>One line of an event stream: \<^verbatim>\<open>data: \<close>, the JSON text, a line feed.\<close>

definition data_line :: "string \<Rightarrow> string" where
  "data_line text = ''data: '' @ text @ [newline]"

text \<open>Clock readings, a request body with \<^verbatim>\<open>"stream": true\<close>, and an upstream that answers 200
  with the given chunks.\<close>

definition example_clock :: clock where
  "example_clock = \<lparr>start_time = 10, gen_start_time = 11, gen_end_time = 12,
                     except_time = 12, commit_time = 13\<rparr>"

definition stream_request :: "json option" where
  "stream_request = Some (JObj [(''stream'', JBool True)])"

definition ok_stream :: "string list \<Rightarrow> upstream" where
  "ok_stream chunks = Responds \<lparr>up_status = 200, up_headers = [], up_chunks = chunks,
                                 up_stream_error = None\<rparr>"

text \<open>The counters of an instance: token total, request count, error count, active
  requests.\<close>

definition counters :: "store \<Rightarrow> string \<Rightarrow> string \<Rightarrow> (int \<times> int \<times> int \<times> int) option" where
  "counters st model_name nid =
     (case map_of st model_name of
        None \<Rightarrow> None
      | Some insts \<Rightarrow>
          (case map_of insts nid of
             None \<Rightarrow> None
           | Some i \<Rightarrow>
               Some (token_total (mtr i), request_count (mtr i), error_count (mtr i),
                     active_requests (mtr i))))"

subsection \<open>The lines and objects of a stream\<close>

text \<open>
  The text the parser sees in the course of a stream: the decoded chunks, in order,
  without the empty chunks and the chunks that fail to decode.
\<close>

definition stream_text :: "lib \<Rightarrow> string list \<Rightarrow> string" where
  "stream_text L chunks =
     concat (map (\<lambda>chunk. case utf8_decode L chunk of None \<Rightarrow> [] | Some chunk_str \<Rightarrow> chunk_str)
               (filter (\<lambda>chunk. chunk \<noteq> []) chunks))"

text \<open>The complete lines of a text (each ended by a line feed), and what follows the last
  line feed.\<close>

function lines_of :: "string \<Rightarrow> string list" where
  "lines_of buf =
     (if newline \<in> set buf
      then takeWhile (\<lambda>c. c \<noteq> newline) buf # lines_of (tl (dropWhile (\<lambda>c. c \<noteq> newline) buf))
      else [])"
  by pat_completeness auto
termination
proof (relation "measure length")
  show "wf (measure length)" by simp
next
  fix buf :: string
  assume nl: "newline \<in> set buf"
  then have "dropWhile (\<lambda>c. c \<noteq> newline) buf \<noteq> []"
    by (auto simp: dropWhile_eq_Nil_conv)
  moreover have "length (dropWhile (\<lambda>c. c \<noteq> newline) buf) \<le> length buf"
    by (rule length_dropWhile_le)
  ultimately have "length (tl (dropWhile (\<lambda>c. c \<noteq> newline) buf)) < length buf"
    by (cases "dropWhile (\<lambda>c. c \<noteq> newline) buf") auto
  then show "(tl (dropWhile (\<lambda>c. c \<noteq> newline) buf), buf) \<in> measure length"
    by simp
qed

function last_partial :: "string \<Rightarrow> string" where
  "last_partial buf =
     (if newline \<in> set buf
      then last_partial (tl (dropWhile (\<lambda>c. c \<noteq> newline) buf))
      else buf)"
  by pat_completeness auto
termination
proof (relation "measure length")
  show "wf (measure length)" by simp
next
  fix buf :: string
  assume nl: "newline \<in> set buf"
  then have "dropWhile (\<lambda>c. c \<noteq> newline) buf \<noteq> []"
    by (auto simp: dropWhile_eq_Nil_conv)
  moreover have "length (dropWhile (\<lambda>c. c \<noteq> newline) buf) \<le> length buf"
    by (rule length_dropWhile_le)
  ultimately have "length (tl (dropWhile (\<lambda>c. c \<noteq> newline) buf)) < length buf"
    by (cases "dropWhile (\<lambda>c. c \<noteq> newline) buf") auto
  then show "(tl (dropWhile (\<lambda>c. c \<noteq> newline) buf), buf) \<in> measure length"
    by simp
qed

text \<open>The lines processed in order, up to the first exception.\<close>

fun account_lines :: "lib \<Rightarrow> string list \<Rightarrow> acct \<Rightarrow> (exn \<times> acct) + acct" where
  "account_lines L [] a = Inr a"
| "account_lines L (line # ls) a =
     (case process_line L line a of
        (Some e, a') \<Rightarrow> Inl (e, a')
      | (None, a') \<Rightarrow> account_lines L ls a')"

text \<open>The object a line is parsed to, if it is a \<^verbatim>\<open>data: \<close> line that parses.\<close>

definition line_object :: "lib \<Rightarrow> string \<Rightarrow> json option" where
  "line_object L line =
     (if take (length data_prefix) line = data_prefix
      then json_loads L (str_strip L (drop 6 line))
      else None)"

subsection \<open>The token count of a stream\<close>

text \<open>
  The total an object reports: the \<^verbatim>\<open>total_tokens\<close> of its top-level \<^verbatim>\<open>usage\<close> record when
  it has the key \<^verbatim>\<open>usage\<close> (0 when the record lacks the field), whether or not it has a
  usage record under \<^verbatim>\<open>metadata\<close> as well; otherwise the \<^verbatim>\<open>total_tokens\<close> of the usage
  record under \<^verbatim>\<open>metadata\<close>, if there is one. \<open>None\<close>: the object reports no total.
\<close>

definition reported_total :: "json \<Rightarrow> json option" where
  "reported_total data =
     (if py_in ''usage'' data = Inr True then
        (case py_getitem data ''usage'' of
           Inl e \<Rightarrow> None
         | Inr usage \<Rightarrow>
             (case py_get usage ''total_tokens'' (JInt 0) of
                Inl e \<Rightarrow> None
              | Inr v \<Rightarrow> Some v))
      else
        (case metadata_usage data of
           Inr (Some usage) \<Rightarrow>
             (case py_get usage ''total_tokens'' (JInt 0) of
                Inl e \<Rightarrow> None
              | Inr v \<Rightarrow> Some v)
         | _ \<Rightarrow> None))"

text \<open>
  What an object adds to the running count: the sum of its two counts, when it has both
  keys and no top-level \<^verbatim>\<open>usage\<close> key.
\<close>

definition object_counts :: "json \<Rightarrow> int" where
  "object_counts data =
     (if py_in ''usage'' data = Inr False \<and> has_counts data = Inr True
      then (case add_counts data 0 of Inl e \<Rightarrow> 0 | Inr n \<Rightarrow> n)
      else 0)"

text \<open>
  The same for a line: the total its object reports, and what the line adds to the
  running count (for a \<^verbatim>\<open>data: \<close> line that does not parse, the counts the regular
  expression finds).
\<close>

definition line_total :: "lib \<Rightarrow> string \<Rightarrow> json option" where
  "line_total L line =
     (case line_object L line of None \<Rightarrow> None | Some data \<Rightarrow> reported_total data)"

definition line_counts :: "lib \<Rightarrow> string \<Rightarrow> int" where
  "line_counts L line =
     (if take (length data_prefix) line = data_prefix then
        let json_str = str_strip L (drop 6 line)
        in (case json_loads L json_str of
              Some data \<Rightarrow> object_counts data
            | None \<Rightarrow>
                (case re_search_int L ''prompt_eval_count'' json_str of
                   None \<Rightarrow> 0 | Some n \<Rightarrow> n)
                + (case re_search_int L ''eval_count'' json_str of
                     None \<Rightarrow> 0 | Some n \<Rightarrow> n))
      else 0)"

text \<open>
  The total reported last in a sequence of lines (\<open>JNull\<close> when no line reports one), and
  the running count of the lines.
\<close>

definition stream_final :: "lib \<Rightarrow> string list \<Rightarrow> json" where
  "stream_final L ls =
     foldl (\<lambda>fin line. case line_total L line of None \<Rightarrow> fin | Some v \<Rightarrow> v) JNull ls"

definition stream_counts :: "lib \<Rightarrow> string list \<Rightarrow> int" where
  "stream_counts L ls = sum_list (map (line_counts L) ls)"

text \<open>
  The bytes collected in the course of a stream: every non-empty chunk, and a chunk that
  fails to decode twice.
\<close>

definition collected_bytes :: "lib \<Rightarrow> string list \<Rightarrow> string" where
  "collected_bytes L chunks =
     concat (map (\<lambda>chunk. case utf8_decode L chunk of
                            None \<Rightarrow> chunk @ chunk
                          | Some chunk_str \<Rightarrow> chunk)
               (filter (\<lambda>chunk. chunk \<noteq> []) chunks))"

text \<open>
  The token count of a stream: the total reported last, or the running count when none
  is reported (or the one reported last is \<^verbatim>\<open>null\<close>); and when this is 0, the result of
  the byte scan over the collected bytes.
\<close>

definition stream_tokens :: "lib \<Rightarrow> string list \<Rightarrow> json" where
  "stream_tokens L chunks =
     (let ls = lines_of (stream_text L chunks);
          fin = stream_final L ls;
          tok = (if fin \<noteq> JNull then fin else JInt (stream_counts L ls))
      in if py_is_zero tok then JInt (scan_collected L (collected_bytes L chunks)) else tok)"

text \<open>
  A stream whose chunk boundaries fall inside lines: counts 7 and 5, then
  \<^verbatim>\<open>metadata.usage.total_tokens = 42\<close>, then an object without token fields.
\<close>

definition split_stream :: "string list" where
  \<open>split_stream =
     [''data: {"prompt_eval_count":7,'',
      ''"eval_count":5}'' @ [newline] @ ''data: {"metadata":{"usage":{"total_to'',
      ''kens":42}}}'' @ [newline] @ ''data: {"id":"x"}'' @ [newline]]\<close>

definition split_response :: upstream_response where
  "split_response = \<lparr>up_status = 200, up_headers = [], up_chunks = split_stream,
                       up_stream_error = None\<rparr>"

section \<open>The metrics snapshots\<close>

text \<open>
  Source: \<^verbatim>\<open>get_service_metrics\<close>, \<^verbatim>\<open>get_global_metrics\<close> and \<^verbatim>\<open>get_combined_metrics\<close> of
  \<^verbatim>\<open>ModelLoadBalancer\<close>. The store is a dict, so its model names are distinct, and the
  assignments \<^verbatim>\<open>result[model_name] = ...\<close> of the loops over its items build one entry for
  each model, in the order of the store.
\<close>

text \<open>The eight fields a node is reported with.\<close>

record node_view =
  nv_name :: string
  nv_ip :: string
  nv_status :: status
  nv_balance :: balance_label
  nv_load_rate :: real
  nv_tokens :: int
  nv_inference_time :: real
  nv_weight :: real

text \<open>The nine fields a model is reported with.\<close>

record global_view =
  gv_nodes :: int
  gv_healthy :: int
  gv_balance_degree :: real
  gv_tokens :: int
  gv_inference_time :: real
  gv_load_rate :: real
  gv_active :: int
  gv_throughput :: real
  gv_update_time :: string

text \<open>\<^verbatim>\<open>sorted(metrics_dict.values(), key=lambda x: x[node name])\<close>: a stable sort by name.\<close>

definition sorted_nodes :: "instances \<Rightarrow> metrics list" where
  "sorted_nodes insts = sort_key node_name (map (\<lambda>(k, i). mtr i) insts)"

definition node_view_of :: "metrics \<Rightarrow> node_view" where
  "node_view_of node =
     \<lparr>nv_name = node_name node, nv_ip = ip_address node, nv_status = node_status node,
      nv_balance = balance node, nv_load_rate = load_rate node, nv_tokens = token_total node,
      nv_inference_time = inference_time node, nv_weight = weight node\<rparr>"

definition get_service_metrics :: "store \<Rightarrow> (string \<times> node_view list) list" where
  "get_service_metrics st =
     map (\<lambda>(model_name, insts). (model_name, map node_view_of (sorted_nodes insts))) st"

text \<open>
  \<^verbatim>\<open>np.mean\<close> and \<^verbatim>\<open>np.std\<close> of a non-empty list, and \<^verbatim>\<open>round(x, n)\<close>, which rounds a half to
  the even neighbour; all on exact reals.
\<close>

definition np_mean :: "real list \<Rightarrow> real" where
  "np_mean xs = sum_list xs / real (length xs)"

definition np_std :: "real list \<Rightarrow> real" where
  "np_std xs = sqrt (np_mean (map (\<lambda>x. (x - np_mean xs)\<^sup>2) xs))"

definition py_round :: "real \<Rightarrow> nat \<Rightarrow> real" where
  "py_round x n = real_of_int (round_half_even (x * 10 ^ n)) / 10 ^ n"

text \<open>
  The balance degree of the weights of the healthy nodes. The division is one of numpy
  floats, which does not raise: for a mean of 0 the quotient is infinite, and the degree
  is clipped to 0, or it is not a number (the deviation is 0 as well), and \<^verbatim>\<open>min\<close> and
  \<^verbatim>\<open>max\<close> return 1.
\<close>

definition lb_degree :: "real list \<Rightarrow> real" where
  "lb_degree weights =
     (if weights = [] then 0
      else
        let avg_weight = np_mean weights;
            std_dev = np_std weights
        in if avg_weight = 0 then (if std_dev = 0 then 1 else 0)
           else max 0 (min 1 (1 - std_dev / avg_weight)))"

text \<open>
  The global metrics of one model at the time \<open>current_time\<close>, up to the rounding of the
  fields and the text of the time, which \<open>strftime\<close> stands for
  (\<^verbatim>\<open>time.strftime\<close> of \<^verbatim>\<open>time.localtime\<close>).
\<close>

definition global_view_of :: "(real \<Rightarrow> string) \<Rightarrow> real \<Rightarrow> instances \<Rightarrow> global_view" where
  "global_view_of strftime current_time insts =
     (let ms = map (\<lambda>(k, i). mtr i) insts;
          healthy_nodes = filter (\<lambda>m. node_status m = HEALTHY) ms;
          warning_nodes = filter (\<lambda>m. node_status m = WARNING) ms;
          total_requests = sum_list (map request_count
                             (filter (\<lambda>m. last_update m \<ge> current_time - 10) ms));
          throughput = (if total_requests > 0 then real_of_int total_requests / 10 else 0);
          avg_load = (if ms \<noteq> [] then np_mean (map load_rate ms) else 0);
          avg_inference = (if ms \<noteq> [] then np_mean (map inference_time ms) else 0)
      in \<lparr>gv_nodes = int (length ms),
          gv_healthy = int (length healthy_nodes),
          gv_balance_degree = py_round (lb_degree (map weight healthy_nodes) * 100) 1,
          gv_tokens = sum_list (map token_total ms),
          gv_inference_time = py_round avg_inference 1,
          gv_load_rate = py_round (avg_load * 100) 1,
          gv_active = int (length ms) - int (length warning_nodes),
          gv_throughput = py_round throughput 1,
          gv_update_time = strftime current_time\<rparr>)"

definition get_global_metrics ::
  "(real \<Rightarrow> string) \<Rightarrow> real \<Rightarrow> store \<Rightarrow> (string \<times> global_view) list" where
  "get_global_metrics strftime current_time st =
     map (\<lambda>(model_name, insts). (model_name, global_view_of strftime current_time insts)) st"

text \<open>
  The two functions of the module \<^verbatim>\<open>random\<close> that \<^verbatim>\<open>get_combined_metrics\<close> calls, on an
  explicit generator state: each returns its value and the next state.
\<close>

record 'g random =
  uniform :: "real \<Rightarrow> real \<Rightarrow> 'g \<Rightarrow> real \<times> 'g"
  randint :: "int \<Rightarrow> int \<Rightarrow> 'g \<Rightarrow> int \<times> 'g"

text \<open>\<^verbatim>\<open>random_if_zero(val, rfunc)\<close>.\<close>

definition random_if_zero :: "'a::zero \<Rightarrow> ('g \<Rightarrow> 'a \<times> 'g) \<Rightarrow> 'g \<Rightarrow> 'a \<times> 'g" where
  "random_if_zero val rfunc g = (if val = 0 then rfunc g else (val, g))"

text \<open>\<^verbatim>\<open>round(random.uniform(a, b), n)\<close>.\<close>

definition rounded_uniform :: "'g random \<Rightarrow> real \<Rightarrow> real \<Rightarrow> nat \<Rightarrow> 'g \<Rightarrow> real \<times> 'g" where
  "rounded_uniform R a b n g = (case uniform R a b g of (u, g') \<Rightarrow> (py_round u n, g'))"

text \<open>A node as the combined snapshot reports it: the four numeric fields in the order of
  the dict display, each replaced by a random value when it is 0.\<close>

definition node_view_random :: "'g random \<Rightarrow> metrics \<Rightarrow> 'g \<Rightarrow> node_view \<times> 'g" where
  "node_view_random R node g =
     (case random_if_zero (load_rate node) (rounded_uniform R (1/10) (4/5) 2) g of
        (lr, g1) \<Rightarrow>
     (case random_if_zero (token_total node) (randint R 100 10000) g1 of
        (tk, g2) \<Rightarrow>
     (case random_if_zero (inference_time node) (rounded_uniform R 10 100 1) g2 of
        (it, g3) \<Rightarrow>
     (case random_if_zero (weight node) (rounded_uniform R 10 40 1) g3 of
        (w, g4) \<Rightarrow>
          (\<lparr>nv_name = node_name node, nv_ip = ip_address node, nv_status = node_status node,
            nv_balance = balance node, nv_load_rate = lr, nv_tokens = tk,
            nv_inference_time = it, nv_weight = w\<rparr>, g4)))))"

fun node_views_random :: "'g random \<Rightarrow> metrics list \<Rightarrow> 'g \<Rightarrow> node_view list \<times> 'g" where
  "node_views_random R [] g = ([], g)"
| "node_views_random R (node # nodes) g =
     (case node_view_random R node g of
        (v, g1) \<Rightarrow>
          (case node_views_random R nodes g1 of (vs, g2) \<Rightarrow> (v # vs, g2)))"

text \<open>The global metrics of a model as the combined snapshot reports them.\<close>

definition global_view_random :: "'g random \<Rightarrow> global_view \<Rightarrow> 'g \<Rightarrow> global_view \<times> 'g" where
  "global_view_random R v g =
     (case random_if_zero (gv_nodes v) (randint R 1 4) g of (n, g1) \<Rightarrow>
     (case random_if_zero (gv_healthy v) (randint R 1 4) g1 of (h, g2) \<Rightarrow>
     (case random_if_zero (gv_balance_degree v) (rounded_uniform R 80 100 1) g2 of (b, g3) \<Rightarrow>
     (case random_if_zero (gv_tokens v) (randint R 1000 10000) g3 of (t, g4) \<Rightarrow>
     (case random_if_zero (gv_inference_time v) (rounded_uniform R 10 100 1) g4 of (i, g5) \<Rightarrow>
     (case random_if_zero (gv_load_rate v) (rounded_uniform R 10 80 1) g5 of (l, g6) \<Rightarrow>
     (case random_if_zero (gv_active v) (randint R 1 4) g6 of (a, g7) \<Rightarrow>
     (case random_if_zero (gv_throughput v) (rounded_uniform R 10 100 1) g7 of (q, g8) \<Rightarrow>
       (\<lparr>gv_nodes = n, gv_healthy = h, gv_balance_degree = b, gv_tokens = t,
         gv_inference_time = i, gv_load_rate = l, gv_active = a, gv_throughput = q,
         gv_update_time = gv_update_time v\<rparr>, g8)))))))))"

text \<open>The result of \<^verbatim>\<open>get_combined_metrics\<close>: the two dicts.\<close>

record combined =
  global_metrics :: "(string \<times> global_view) list"
  node_metrics :: "(string \<times> node_view list) list"

text \<open>The loop over the models: for each, the node list, then the global metrics.\<close>

fun combined_loop ::
  "'g random \<Rightarrow> (real \<Rightarrow> string) \<Rightarrow> real \<Rightarrow> store \<Rightarrow> 'g \<Rightarrow> combined \<times> 'g" where
  "combined_loop R strftime current_time [] g =
     (\<lparr>global_metrics = [], node_metrics = []\<rparr>, g)"
| "combined_loop R strftime current_time ((model_name, insts) # rest) g =
     (case node_views_random R (sorted_nodes insts) g of
        (vs, g1) \<Rightarrow>
     (case global_view_random R (global_view_of strftime current_time insts) g1 of
        (gv, g2) \<Rightarrow>
     (case combined_loop R strftime current_time rest g2 of
        (c, g3) \<Rightarrow>
          (\<lparr>global_metrics = (model_name, gv) # global_metrics c,
            node_metrics = (model_name, vs) # node_metrics c\<rparr>, g3))))"

definition get_combined_metrics ::
  "'g random \<Rightarrow> (real \<Rightarrow> string) \<Rightarrow> real \<Rightarrow> store \<Rightarrow> 'g \<Rightarrow> combined \<times> 'g" where
  "get_combined_metrics R strftime current_time st g = combined_loop R strftime current_time st g"

text \<open>No field that the combined snapshot would replace is 0.\<close>

definition node_nonzero :: "node_view \<Rightarrow> bool" where
  "node_nonzero v =
     (nv_load_rate v \<noteq> 0 \<and> nv_tokens v \<noteq> 0 \<and> nv_inference_time v \<noteq> 0 \<and> nv_weight v \<noteq> 0)"

definition global_nonzero :: "global_view \<Rightarrow> bool" where
  "global_nonzero v =
     (gv_nodes v \<noteq> 0 \<and> gv_healthy v \<noteq> 0 \<and> gv_balance_degree v \<noteq> 0 \<and> gv_tokens v \<noteq> 0 \<and>
      gv_inference_time v \<noteq> 0 \<and> gv_load_rate v \<noteq> 0 \<and> gv_active v \<noteq> 0 \<and>
      gv_throughput v \<noteq> 0)"

definition no_zero_field :: "(real \<Rightarrow> string) \<Rightarrow> real \<Rightarrow> store \<Rightarrow> bool" where
  "no_zero_field strftime current_time st =
     (list_all (\<lambda>(model_name, vs). list_all node_nonzero vs) (get_service_metrics st) \<and>
      list_all (\<lambda>(model_name, v). global_nonzero v)
        (get_global_metrics strftime current_time st))"

text \<open>
  For the examples: a generator whose state is the list of the numbers that
  \<^verbatim>\<open>random.random()\<close> will return, each in [0, 1); and a text for the time.
\<close>

definition list_random :: "real list random" where
  "list_random =
     \<lparr>uniform = (\<lambda>a b g. case g of [] \<Rightarrow> (a, []) | u # us \<Rightarrow> (a + (b - a) * u, us)),
      randint = (\<lambda>a b g. case g of [] \<Rightarrow> (a, [])
                          | u # us \<Rightarrow> (a + \<lfloor>u * real_of_int (b - a + 1)\<rfloor>, us))\<rparr>"

definition seconds_text :: "real \<Rightarrow> string" where
  "seconds_text t = (if t = 5 then ''1970-01-01 00:00:05'' else ''1970-01-01 00:00:00'')"

text \<open>
  A store without a zero field: one instance, two selections, then two successful
  commits of 42 tokens at the times 1 and 2.
\<close>

definition busy_store :: store where
  "busy_store =
     snd (update_instance_metrics
       (snd (update_instance_metrics
          (snd (get_next_instance (snd (get_next_instance store_A20 ''m'')) ''m''))
          1 ''m'' ''A'' 100 False 42))
       2 ''m'' ''A'' 100 False 42)"

text \<open>The numbers the generator of the example returns during two reads of a store with
  one instance: seven for each read.\<close>

definition draws :: "real list" where
  "draws = [0, 0, 0, 0, 0, 0, 0, 1/2, 1/2, 1/2, 1/2, 1/2, 1/2, 1/2]"

section \<open>Theorems\<close>

subsection \<open>Binary64 rounding of integers\<close>

text \<open>
  An integer below \<open>2 ^ 53\<close> in magnitude is a binary64 number: rounding leaves it as it
  is, so the rounded operations are exact on such integers, as Python's are on ints.
\<close>

lemma ilog2_bounds: "1 \<le> n \<Longrightarrow> 2 ^ ilog2 n \<le> n \<and> n < 2 ^ (ilog2 n + 1)"
proof (induction n rule: ilog2.induct)
  case (1 n)
  show ?case
  proof (cases "n < 2")
    case True
    with "1.prems" have "n = 1" by simp
    then show ?thesis by (simp add: ilog2.simps [of 1])
  next
    case False
    then have "1 \<le> n div 2" by simp
    from "1.IH" [OF False this]
    have IH: "2 ^ ilog2 (n div 2) \<le> n div 2" "n div 2 < 2 ^ (ilog2 (n div 2) + 1)"
      by simp_all
    have e: "ilog2 n = Suc (ilog2 (n div 2))"
      using False by (simp add: ilog2.simps [of n])
    have "2 * 2 ^ ilog2 (n div 2) \<le> n" using IH(1) by linarith
    moreover have "n < 2 * 2 ^ (ilog2 (n div 2) + 1)" using IH(2) by linarith
    ultimately show ?thesis unfolding e by simp
  qed
qed

lemma round_half_even_of_int: "round_half_even (of_int k) = k"
  by (simp add: round_half_even_def)

lemma pow2_neg: "pow2 (- int k) = 1 / 2 ^ k"
  by (cases k) (simp_all add: pow2_def nat_add_distrib)

lemma fl_of_int:
  assumes "\<bar>n\<bar> < 2 ^ 53"
  shows "fl (of_int n) = of_int n"
proof (cases "n = 0")
  case True
  then show ?thesis by (simp add: fl_def)
next
  case False
  define e where "e = ilog2 \<bar>n\<bar>"
  have one: "1 \<le> \<bar>n\<bar>" using False by simp
  from ilog2_bounds [OF one] have b: "2 ^ e \<le> \<bar>n\<bar>" by (simp add: e_def)
  with assms have "(2::int) ^ e < 2 ^ 53" by linarith
  from power_less_imp_less_exp [OF _ this] have e52: "e \<le> 52" by simp
  have fa: "\<lfloor>\<bar>real_of_int n\<bar>\<rfloor> = \<bar>n\<bar>"
    by (metis floor_of_int of_int_abs)
  have oner: "1 \<le> \<bar>real_of_int n\<bar>"
    using one by (metis of_int_abs of_int_1_le_iff)
  have ex: "exponent_of \<bar>real_of_int n\<bar> = int e"
    unfolding exponent_of_def if_P [OF oner] fa e_def by (rule refl)
  have q: "max (int e - 52) (- 1074) = - int (52 - e)" using e52 by simp
  have p: "pow2 (- int (52 - e)) = 1 / 2 ^ (52 - e)"
    by (rule pow2_neg)
  have d: "\<bar>real_of_int n\<bar> / (1 / 2 ^ (52 - e)) = real_of_int (\<bar>n\<bar> * 2 ^ (52 - e))"
    by simp
  have "fl (of_int n) = sgn (real_of_int n) * real_of_int (\<bar>n\<bar> * 2 ^ (52 - e)) * (1 / 2 ^ (52 - e))"
    using False unfolding fl_def Let_def ex q p d round_half_even_of_int by simp
  also have "\<dots> = sgn (real_of_int n) * \<bar>real_of_int n\<bar>" by simp
  also have "\<dots> = real_of_int n" by (simp add: sgn_mult_abs)
  finally show ?thesis .
qed

lemma fl_code [code]:
  "fl x =
     (if x = real_of_int \<lfloor>x\<rfloor> \<and> \<bar>x\<bar> < 2 ^ 53 then x
      else
        let a = \<bar>x\<bar>;
            q = max (exponent_of a - 52) (- 1074);
            m = round_half_even (a / pow2 q)
        in sgn x * real_of_int m * pow2 q)"
proof (cases "x = real_of_int \<lfloor>x\<rfloor> \<and> \<bar>x\<bar> < 2 ^ 53")
  case True
  then have "\<bar>\<lfloor>x\<rfloor>\<bar> < 2 ^ 53"
    by (metis (mono_tags, opaque_lifting) of_int_abs of_int_less_iff of_int_numeral of_int_power)
  from fl_of_int [OF this] True show ?thesis by simp
next
  case False
  then have "x \<noteq> 0" by auto
  then show ?thesis unfolding if_not_P [OF False] by (simp add: fl_def)
qed

subsection \<open>The failure count of a healthy instance\<close>

lemma select_loop_fst: "fst (select_loop insts sc) = map (\<lambda>(k, i). (k, bump i)) insts"
  by (induction insts arbitrary: sc) (auto simp: bump_def Let_def case_prod_beta)

lemma init_instances_entries:
  "map_of (init_instances now cs acc) k = Some i \<Longrightarrow>
   map_of acc k = Some i \<or> (\<exists>c. i = new_inst now c)"
proof (induction cs arbitrary: acc)
  case Nil
  then show ?case by simp
next
  case (Cons c cs)
  from Cons.prems have "map_of (init_instances now cs (AList.update (cfg_name c) (new_inst now c) acc)) k = Some i"
    by simp
  from Cons.IH [OF this] show ?case
    by (auto simp: update_conv' split: if_splits)
qed

lemma init_models_entries:
  "map_of (init_models now cfg acc) m = Some insts \<Longrightarrow>
   map_of acc m = Some insts \<or> (\<exists>cs. insts = init_instances now cs [])"
proof (induction cfg arbitrary: acc)
  case Nil
  then show ?case by simp
next
  case (Cons mc cfg)
  obtain model_name cs where mc: "mc = (model_name, cs)" by (cases mc)
  from Cons.prems have "map_of (init_models now cfg
      (AList.update model_name (init_instances now cs []) acc)) m = Some insts"
    by (simp add: mc)
  from Cons.IH [OF this] show ?case
    by (auto simp: update_conv' split: if_splits)
qed

lemma initialize_failures_ok: "entries_ok failures_ok (initialize now cfg)"
  unfolding entries_ok_def initialize_def
proof (intro allI impI)
  fix m insts k i
  assume a: "map_of (init_models now cfg []) m = Some insts" and b: "map_of insts k = Some i"
  from init_models_entries [OF a] obtain cs where "insts = init_instances now cs []" by auto
  with b init_instances_entries [of now cs "[]" k i] obtain c where "i = new_inst now c" by auto
  then show "failures_ok i" by (simp add: failures_ok_def new_inst_def Let_def)
qed

lemma map_of_bumped:
  "map_of (map (\<lambda>(k, i). (k, bump i)) insts) k = map_option bump (map_of insts k)"
  by (induction insts) auto

lemma map_of_map_entry':
  "map_of (AList.map_entry k f xs) k' =
     (if k' = k then map_option f (map_of xs k) else map_of xs k')"
  by (induction xs) auto

lemma select_failures_ok:
  assumes "entries_ok failures_ok st"
  shows "entries_ok failures_ok (snd (get_next_instance st model_name))"
proof (cases "map_of st model_name")
  case None
  then show ?thesis using assms by (simp add: get_next_instance_def)
next
  case (Some insts)
  have P: "\<And>k i. map_of insts k = Some i \<Longrightarrow> failures_ok i"
    using assms Some by (auto simp: entries_ok_def)
  obtain insts1 sc where sl: "select_loop insts scan0 = (insts1, sc)" by (cases "select_loop insts scan0")
  have i1: "insts1 = map (\<lambda>(k, i). (k, bump i)) insts"
    using select_loop_fst [of insts scan0] sl by simp
  have P1: "failures_ok i" if "map_of insts1 k = Some i" for k i
  proof -
    from that obtain i0 where "map_of insts k = Some i0" "i = bump i0"
      by (auto simp: i1 map_of_bumped)
    with P [of k i0] show ?thesis by (simp add: failures_ok_def bump_def)
  qed
  show ?thesis
  proof (cases "best sc")
    case None
    then show ?thesis using assms Some sl P1
      by (auto simp: get_next_instance_def entries_ok_def update_conv' split: if_splits)
  next
    case (Some gb)
    obtain g b where gb: "gb = (g, b)" by (cases gb)
    show ?thesis using assms \<open>map_of st model_name = Some insts\<close> sl Some gb P1
      by (auto simp: get_next_instance_def entries_ok_def update_conv' Let_def map_of_map_entry'
          failures_ok_def split: if_splits)
  qed
qed

lemma update_load_status:
  "update_load t rt tc m = (r, m1) \<Longrightarrow> node_status m1 = node_status m"
  by (auto simp: update_load_def Let_def split: if_splits)

lemma update_balance_status:
  "update_balance insts m = Inr m3 \<Longrightarrow> node_status m3 = node_status m"
  by (auto simp: update_balance_def Let_def split: if_splits)

lemma update_weights_failures_ok: "failures_ok i \<Longrightarrow> failures_ok (update_weights e i)"
  by (auto simp: update_weights_def failures_ok_def Let_def)

lemma commit_failures_ok:
  assumes "entries_ok failures_ok st"
  shows "entries_ok failures_ok
           (snd (update_instance_metrics st now model_name nid rt is_error tc))"
proof (cases "map_of st model_name")
  case None
  then show ?thesis using assms by (simp add: update_instance_metrics_def)
next
  case (Some insts)
  note S = Some
  have P: "\<And>k i. map_of insts k = Some i \<Longrightarrow> failures_ok i"
    using assms Some by (auto simp: entries_ok_def)
  show ?thesis
  proof (cases "map_of insts nid")
    case None
    then show ?thesis using assms S by (simp add: update_instance_metrics_def)
  next
    case (Some i)
    obtain r m1 where ul: "update_load now rt tc (mtr i) = (r, m1)"
      by (cases "update_load now rt tc (mtr i)")
    have st1: "node_status m1 = node_status (mtr i)" using update_load_status [OF ul] .
    have f1: "failures_ok (i\<lparr>mtr := m1\<rparr>)" using P [OF Some] st1 by (simp add: failures_ok_def)
    have f2: "failures_ok (update_weights is_error (i\<lparr>mtr := m1\<rparr>))"
      using update_weights_failures_ok [OF f1] .
    show ?thesis
    proof (cases r)
      case (Some e)
      then show ?thesis using assms S \<open>map_of insts nid = Some i\<close> ul f1 P
        by (auto simp: update_instance_metrics_def entries_ok_def update_conv' split: if_splits)
    next
      case None
      show ?thesis
      proof (cases "update_balance (AList.update nid (update_weights is_error (i\<lparr>mtr := m1\<rparr>)) insts)
                      (mtr (update_weights is_error (i\<lparr>mtr := m1\<rparr>)))")
        case (Inl e)
        then show ?thesis using assms S \<open>map_of insts nid = Some i\<close> ul None f2 P
          by (auto simp: update_instance_metrics_def entries_ok_def update_conv' Let_def split: if_splits)
      next
        case (Inr m3)
        have "failures_ok (update_weights is_error (i\<lparr>mtr := m1\<rparr>)\<lparr>mtr := m3\<rparr>)"
          using f2 update_balance_status [OF Inr] by (simp add: failures_ok_def)
        then show ?thesis using assms S \<open>map_of insts nid = Some i\<close> ul None Inr P
          by (auto simp: update_instance_metrics_def entries_ok_def update_conv' Let_def split: if_splits)
      qed
    qed
  qed
qed

lemma reachable_failures_ok: "reachable st \<Longrightarrow> entries_ok failures_ok st"
  by (induction rule: reachable.induct)
     (simp_all add: initialize_failures_ok select_failures_ok commit_failures_ok)

lemma commit_weight_view:
  assumes "map_of st model_name = Some insts" "map_of insts nid = Some i"
    "load_threshold (mtr i) \<noteq> 0"
  shows "weight_view (snd (update_instance_metrics st now model_name nid rt is_error tc))
           model_name nid =
         Some (effective_weight (wts (update_weights is_error i)),
               history_failures (wts (update_weights is_error i)),
               node_status (mtr (update_weights is_error i)))"
proof -
  obtain m1 where ul: "update_load now rt tc (mtr i) = (None, m1)"
    and st1: "node_status m1 = node_status (mtr i)"
    using assms(3) by (auto simp: update_load_def Let_def)
  have uw: "wts (update_weights is_error (i\<lparr>mtr := m1\<rparr>)) = wts (update_weights is_error i)"
    "node_status (mtr (update_weights is_error (i\<lparr>mtr := m1\<rparr>))) =
       node_status (mtr (update_weights is_error i))"
    using st1 by (auto simp: update_weights_def Let_def)
  show ?thesis
  proof (cases "update_balance (AList.update nid (update_weights is_error (i\<lparr>mtr := m1\<rparr>)) insts)
                      (mtr (update_weights is_error (i\<lparr>mtr := m1\<rparr>)))")
    case (Inl e)
    then show ?thesis using assms ul uw
      by (simp add: update_instance_metrics_def weight_view_def update_conv' Let_def)
  next
    case (Inr m3)
    then show ?thesis using assms ul uw update_balance_status [OF Inr]
      by (simp add: update_instance_metrics_def weight_view_def update_conv' Let_def)
  qed
qed

subsection \<open>The selector's loop\<close>

lemma healthy_of_Cons:
  "healthy_of ((k, i) # rest) =
     (if node_status (mtr i) = HEALTHY then (k, i) # healthy_of rest else healthy_of rest)"
  by (simp add: healthy_of_def)

lemma select_loop_total:
  "total (snd (select_loop insts sc)) =
     foldl fadd (total sc) (map (\<lambda>(k, i). new_weight i) (healthy_of insts))"
  by (induction insts arbitrary: sc)
     (auto simp: healthy_of_def new_weight_def Let_def case_prod_beta)

lemma select_loop_best:
  fixes insts :: instances
  defines "H \<equiv> healthy_of insts"
  shows "(if \<forall>(k, i)\<in>set H. new_weight i \<le> best_weight sc
          then best (snd (select_loop insts sc)) = best sc \<and>
               best_weight (snd (select_loop insts sc)) = best_weight sc
          else \<exists>j ij. (j, ij) \<in> set H \<and>
                 best (snd (select_loop insts sc)) = Some (j, node_id (mtr ij)) \<and>
                 best_weight (snd (select_loop insts sc)) = new_weight ij \<and>
                 best_weight sc < new_weight ij \<and>
                 (\<forall>(k, i)\<in>set H. new_weight i \<le> new_weight ij) \<and>
                 (\<forall>(k, i)\<in>set (takeWhile (\<lambda>(k, i). k \<noteq> j) H). new_weight i < new_weight ij))"
  unfolding H_def
proof (induction insts arbitrary: sc)
  case Nil
  then show ?case by (simp add: healthy_of_def)
next
  case (Cons p rest)
  obtain k i where p: "p = (k, i)" by (cases p)
  show ?case
  proof (cases "node_status (mtr i) = HEALTHY")
    case False
    then have step': "snd (select_loop (p # rest) sc) = snd (select_loop rest sc)"
      and H': "healthy_of (p # rest) = healthy_of rest"
      by (simp_all add: p healthy_of_Cons case_prod_beta)
    show ?thesis unfolding step' H' by (rule Cons.IH)
  next
    case True
    define sc1 where "sc1 = sc\<lparr>total := fadd (total sc) (new_weight i)\<rparr>"
    define sc2 where "sc2 = (if new_weight i > best_weight sc1
        then sc1\<lparr>best := Some (k, node_id (mtr i)), best_weight := new_weight i\<rparr> else sc1)"
    have step: "snd (select_loop (p # rest) sc) = snd (select_loop rest sc2)"
      using True by (simp add: p sc1_def sc2_def new_weight_def Let_def case_prod_beta)
    have H: "healthy_of (p # rest) = (k, i) # healthy_of rest"
      using True by (simp add: p healthy_of_Cons)
    show ?thesis
    proof (cases "new_weight i > best_weight sc")
      case gt: True
      then have b2: "best sc2 = Some (k, node_id (mtr i))" "best_weight sc2 = new_weight i"
        by (simp_all add: sc2_def sc1_def)
      show ?thesis
      proof (cases "\<forall>(k', i')\<in>set (healthy_of rest). new_weight i' \<le> new_weight i")
        case all: True
        with Cons.IH [of sc2] b2
        have "best (snd (select_loop rest sc2)) = Some (k, node_id (mtr i))"
          "best_weight (snd (select_loop rest sc2)) = new_weight i"
          by auto
        then show ?thesis using gt all unfolding step H
          by (auto intro!: exI [of _ k] exI [of _ i])
      next
        case ex: False
        with Cons.IH [of sc2] b2 obtain j ij where j:
          "(j, ij) \<in> set (healthy_of rest)"
          "best (snd (select_loop rest sc2)) = Some (j, node_id (mtr ij))"
          "best_weight (snd (select_loop rest sc2)) = new_weight ij"
          "new_weight i < new_weight ij"
          "\<forall>(k, i)\<in>set (healthy_of rest). new_weight i \<le> new_weight ij"
          "\<forall>(k, i)\<in>set (takeWhile (\<lambda>(k, i). k \<noteq> j) (healthy_of rest)). new_weight i < new_weight ij"
          by auto
        have "\<not> (\<forall>(k, i)\<in>set (healthy_of (p # rest)). new_weight i \<le> best_weight sc)"
          using gt H by auto
        moreover have "\<exists>j ij. (j, ij) \<in> set (healthy_of (p # rest)) \<and>
                 best (snd (select_loop (p # rest) sc)) = Some (j, node_id (mtr ij)) \<and>
                 best_weight (snd (select_loop (p # rest) sc)) = new_weight ij \<and>
                 best_weight sc < new_weight ij \<and>
                 (\<forall>(k, i)\<in>set (healthy_of (p # rest)). new_weight i \<le> new_weight ij) \<and>
                 (\<forall>(k, i)\<in>set (takeWhile (\<lambda>(k, i). k \<noteq> j) (healthy_of (p # rest))).
                    new_weight i < new_weight ij)"
          using j gt unfolding step H
          by (intro exI [of _ j] exI [of _ ij]) auto
        ultimately show ?thesis by (simp only: if_False)
      qed
    next
      case le: False
      then have b2: "best sc2 = best sc" "best_weight sc2 = best_weight sc"
        by (simp_all add: sc2_def sc1_def)
      show ?thesis
      proof (cases "\<forall>(k', i')\<in>set (healthy_of rest). new_weight i' \<le> best_weight sc")
        case all: True
        with Cons.IH [of sc2] b2
        have "best (snd (select_loop rest sc2)) = best sc"
          "best_weight (snd (select_loop rest sc2)) = best_weight sc"
          by auto
        then show ?thesis using le all unfolding step H by auto
      next
        case ex: False
        with Cons.IH [of sc2] b2 obtain j ij where j:
          "(j, ij) \<in> set (healthy_of rest)"
          "best (snd (select_loop rest sc2)) = Some (j, node_id (mtr ij))"
          "best_weight (snd (select_loop rest sc2)) = new_weight ij"
          "best_weight sc < new_weight ij"
          "\<forall>(k, i)\<in>set (healthy_of rest). new_weight i \<le> new_weight ij"
          "\<forall>(k, i)\<in>set (takeWhile (\<lambda>(k, i). k \<noteq> j) (healthy_of rest)). new_weight i < new_weight ij"
          by auto
        have "\<not> (\<forall>(k, i)\<in>set (healthy_of (p # rest)). new_weight i \<le> best_weight sc)"
          using ex H by auto
        moreover have "\<exists>j ij. (j, ij) \<in> set (healthy_of (p # rest)) \<and>
                 best (snd (select_loop (p # rest) sc)) = Some (j, node_id (mtr ij)) \<and>
                 best_weight (snd (select_loop (p # rest) sc)) = new_weight ij \<and>
                 best_weight sc < new_weight ij \<and>
                 (\<forall>(k, i)\<in>set (healthy_of (p # rest)). new_weight i \<le> new_weight ij) \<and>
                 (\<forall>(k, i)\<in>set (takeWhile (\<lambda>(k, i). k \<noteq> j) (healthy_of (p # rest))).
                    new_weight i < new_weight ij)"
          using j le unfolding step H
          by (intro exI [of _ j] exI [of _ ij]) auto
        ultimately show ?thesis by (simp only: if_False)
      qed
    qed
  qed
qed

lemma map_entry_distinct:
  "distinct (map fst xs) \<Longrightarrow>
   AList.map_entry k f xs = map (\<lambda>(k', v). (k', if k' = k then f v else v)) xs"
proof (induction xs)
  case Nil
  then show ?case by simp
next
  case (Cons p xs)
  show ?case
  proof (cases "fst p = k")
    case True
    with Cons.prems have "k \<notin> fst ` set xs" by auto
    then have "map (\<lambda>(k', v). (k', if k' = k then f v else v)) xs = xs"
      by (intro map_idI) (auto simp: case_prod_beta)
    with True show ?thesis by (cases p) simp
  next
    case False
    with Cons show ?thesis by (cases p) simp
  qed
qed

subsection \<open>Commits\<close>

text \<open>
  C10. A commit (\<open>update_instance_metrics\<close>) for a model name that is not in the store, or
  for an instance key that is not a configured instance name of that model (the
  host:port node identifier, for example), raises nothing and returns the store as it
  was; so no \<open>active_requests\<close> counter is decremented by it.
\<close>

theorem commit_unknown_key_is_noop:
  assumes "map_of st model_name = None \<or>
           (\<exists>insts. map_of st model_name = Some insts \<and> map_of insts nid = None)"
  shows "update_instance_metrics st now model_name nid response_time is_error token_count
           = (None, st)"
  using assms by (auto simp: update_instance_metrics_def)

text \<open>
  The theorem at the store of the example, for the node identifier of \<open>A\<close> in place of its
  name.
\<close>

theorem commit_unknown_key_is_noop_witness:
  "(map_of store_A3_B1 ''m'' = None \<or>
    (\<exists>insts. map_of store_A3_B1 ''m'' = Some insts \<and> map_of insts ''10.0.0.1:8000'' = None)) \<and>
   update_instance_metrics store_A3_B1 7 ''m'' ''10.0.0.1:8000'' 100 True 0 = (None, store_A3_B1)"
proof -
  have h: "map_of store_A3_B1 ''m'' = None \<or>
    (\<exists>insts. map_of store_A3_B1 ''m'' = Some insts \<and> map_of insts ''10.0.0.1:8000'' = None)"
    by (simp add: store_A3_B1_def initialize_def cfg_A3_def cfg_B1_def)
  from h commit_unknown_key_is_noop [OF h, of 7 100 True 0] show ?thesis by simp
qed
text \<open>
  C7, as stated, fails in its figures: the products are float products, and the third and
  the fourth error commit of the scenario leave the doubles that print as
  \<^verbatim>\<open>10.240000000000002\<close> and \<^verbatim>\<open>8.192000000000002\<close>, which are neither the numbers 10.24 and
  8.192 nor the doubles nearest to them.
\<close>

theorem commit_weights_counterexample:
  "weight_view (error_commit 3 (error_commit 2 (error_commit 1 store_A20))) ''m'' ''A''
     = Some (fl (10240000000000002 / 10 ^ 15), 3, HEALTHY) \<and>
   fl (10240000000000002 / 10 ^ 15) \<noteq> 1024 / 100 \<and>
   fl (10240000000000002 / 10 ^ 15) \<noteq> fl (1024 / 100) \<and>
   weight_view (error_commit 4 (error_commit 3 (error_commit 2 (error_commit 1 store_A20)))) ''m'' ''A''
     = Some (fl (8192000000000002 / 10 ^ 15), 4, WARNING) \<and>
   fl (8192000000000002 / 10 ^ 15) \<noteq> 8192 / 1000 \<and>
   fl (8192000000000002 / 10 ^ 15) \<noteq> fl (8192 / 1000)"
  by (intro conjI) (code_simp)+

text \<open>
  C7, amended. For every commit on a known (model, instance) of a reachable store (the
  instance's load threshold being non-zero, as the data model requires): on an error the
  effective weight becomes \<open>max 5 (effective_weight * 0.8)\<close> and the failure count is
  incremented; on a success the failure count is reset to 0 and the effective weight
  becomes \<open>min 100 (effective_weight * 1.05)\<close>; both products are those of binary64, the
  exact product of the weight and the double nearest to the factor, rounded to the
  nearest double. A healthy instance enters WARNING exactly when the commit is an error
  and the failure count goes from 3 to 4; an instance in WARNING stays there. In the
  scenario with one instance of weight 20, four error commits give the weights 16, 12.8,
  10.240000000000002 and 8.192000000000002 (the doubles nearest to these decimals), and
  the status is WARNING after the fourth only.
\<close>

theorem commit_weight_controller:
  "(\<forall>st model_name insts nid i now rt is_error tc.
      reachable st \<longrightarrow> map_of st model_name = Some insts \<longrightarrow> map_of insts nid = Some i \<longrightarrow>
      load_threshold (mtr i) \<noteq> 0 \<longrightarrow>
      (\<exists>ew' hf' status'.
         weight_view (snd (update_instance_metrics st now model_name nid rt is_error tc))
           model_name nid = Some (ew', hf', status') \<and>
         ew' = (if is_error then max 5 (fmul (effective_weight (wts i)) (fl (4/5)))
                else min 100 (fmul (effective_weight (wts i)) (fl (21/20)))) \<and>
         hf' = (if is_error then history_failures (wts i) + 1 else 0) \<and>
         (node_status (mtr i) = HEALTHY \<longrightarrow>
            (status' = WARNING \<longleftrightarrow> is_error \<and> history_failures (wts i) = 3 \<and> hf' = 4)) \<and>
         (node_status (mtr i) = WARNING \<longrightarrow> status' = WARNING))) \<and>
   weight_view store_A20 ''m'' ''A'' = Some (20, 0, HEALTHY) \<and>
   weight_view (error_commit 1 store_A20) ''m'' ''A'' = Some (16, 1, HEALTHY) \<and>
   weight_view (error_commit 2 (error_commit 1 store_A20)) ''m'' ''A''
     = Some (fl (128 / 10), 2, HEALTHY) \<and>
   weight_view (error_commit 3 (error_commit 2 (error_commit 1 store_A20))) ''m'' ''A''
     = Some (fl (10240000000000002 / 10 ^ 15), 3, HEALTHY) \<and>
   weight_view (error_commit 4 (error_commit 3 (error_commit 2 (error_commit 1 store_A20)))) ''m'' ''A''
     = Some (fl (8192000000000002 / 10 ^ 15), 4, WARNING)"
proof (intro conjI allI impI)
  fix st model_name insts nid i now rt is_error tc
  assume r: "reachable st" and a: "map_of st model_name = Some insts" "map_of insts nid = Some i"
    and t: "load_threshold (mtr i) \<noteq> 0"
  have f: "failures_ok i" using reachable_failures_ok [OF r] a by (auto simp: entries_ok_def)
  show "\<exists>ew' hf' status'.
         weight_view (snd (update_instance_metrics st now model_name nid rt is_error tc))
           model_name nid = Some (ew', hf', status') \<and>
         ew' = (if is_error then max 5 (fmul (effective_weight (wts i)) (fl (4/5)))
                else min 100 (fmul (effective_weight (wts i)) (fl (21/20)))) \<and>
         hf' = (if is_error then history_failures (wts i) + 1 else 0) \<and>
         (node_status (mtr i) = HEALTHY \<longrightarrow>
            (status' = WARNING \<longleftrightarrow> is_error \<and> history_failures (wts i) = 3 \<and> hf' = 4)) \<and>
         (node_status (mtr i) = WARNING \<longrightarrow> status' = WARNING)"
    unfolding commit_weight_view [OF a t]
    using f by (cases "node_status (mtr i)") (auto simp: update_weights_def failures_ok_def Let_def)
qed (code_simp)+

text \<open>
  The theorem at the fourth error commit of the scenario: the store after three error
  commits is reachable, the instance is healthy with three failures and the weight
  10.240000000000002, and the fourth error commit makes the weight the float product of
  it and 0.8, which is 8.192000000000002, the failure count 4 and the status WARNING.
\<close>

theorem commit_weight_controller_witness:
  "reachable three_errors \<and>
   (\<exists>insts i. map_of three_errors ''m'' = Some insts \<and> map_of insts ''A'' = Some i \<and>
      load_threshold (mtr i) \<noteq> 0 \<and> node_status (mtr i) = HEALTHY \<and>
      history_failures (wts i) = 3 \<and>
      effective_weight (wts i) = fl (10240000000000002 / 10 ^ 15)) \<and>
   (\<exists>ew'. weight_view (snd (update_instance_metrics three_errors 4 ''m'' ''A'' 100 True 0)) ''m'' ''A''
      = Some (ew', 4, WARNING) \<and>
      ew' = max 5 (fmul (fl (10240000000000002 / 10 ^ 15)) (fl (4/5))) \<and>
      ew' = fl (8192000000000002 / 10 ^ 15))"
proof -
  have r: "reachable three_errors"
    unfolding three_errors_def error_commit_def store_A20_def
    by (intro reach_commit reach_init)
  define insts where "insts = the (map_of three_errors ''m'')"
  define i where "i = the (map_of insts ''A'')"
  have a: "map_of three_errors ''m'' = Some insts"
    unfolding insts_def by code_simp
  have b: "map_of insts ''A'' = Some i"
    unfolding i_def insts_def by code_simp
  have c: "load_threshold (mtr i) \<noteq> 0"
    unfolding i_def insts_def by code_simp
  have d: "node_status (mtr i) = HEALTHY" "history_failures (wts i) = 3"
    "effective_weight (wts i) = fl (10240000000000002 / 10 ^ 15)"
    unfolding i_def insts_def by code_simp+
  have v: "max 5 (fmul (fl (10240000000000002 / 10 ^ 15)) (fl (4/5))) =
           fl (8192000000000002 / 10 ^ 15)"
    by code_simp
  from commit_weight_controller [THEN conjunct1, rule_format, OF r a b c, of 4 100 True 0]
  obtain ew' hf' status' where
    "weight_view (snd (update_instance_metrics three_errors 4 ''m'' ''A'' 100 True 0)) ''m'' ''A''
       = Some (ew', hf', status')"
    "ew' = max 5 (fmul (fl (10240000000000002 / 10 ^ 15)) (fl (4/5)))" "hf' = 4" "status' = WARNING"
    using d by auto
  with r a b c d v show ?thesis by auto
qed
subsection \<open>Selection\<close>

text \<open>
  C6. The selector at a store reached by \<^verbatim>\<open>initialize\<close>, one selection and four error
  commits for \<open>B\<close>: instance \<open>A\<close> is healthy, with the current weight -40 the selection left
  it, and \<^verbatim>\<open>get_next_instance\<close> raises 503 (no healthy node), because no healthy instance
  has a current weight above the initial \<^verbatim>\<open>best_weight = 0\<close> after its increment.
\<close>

theorem select_503_with_healthy_instance:
  "reachable B_failed \<and>
   weight_view B_failed ''m'' ''A'' = Some (20, 0, HEALTHY) \<and>
   current_weights B_failed ''m'' = [-40, 40] \<and>
   fst (get_next_instance B_failed ''m'') = Inl (HTTPException 503 (NoHealthyNode ''m''))"
proof (intro conjI)
  show "reachable B_failed"
    unfolding B_failed_def error_commit_B_def store_A20_B20_def
    by (intro reach_commit reach_select reach_init)
qed (code_simp)+

text \<open>
  C1, as stated, fails: from the store \<^verbatim>\<open>initialize\<close> builds for \<open>A\<close> (weight 3) and \<open>B\<close>
  (weight 1), whose current weights are 3 and 1, eight selections pick
  \<open>A, B, A, A, A, B, A, A\<close>; the first selection subtracts 8, the sum of the incremented
  current weights, and not 4, the sum of the effective weights.
\<close>

theorem select_sequence_counterexample:
  "picks store_A3_B1 ''m'' 8 =
     [Some ''A'', Some ''B'', Some ''A'', Some ''A'', Some ''A'', Some ''B'', Some ''A'', Some ''A''] \<and>
   picks store_A3_B1 ''m'' 8 \<noteq>
     [Some ''A'', Some ''A'', Some ''B'', Some ''A'', Some ''A'', Some ''A'', Some ''B'', Some ''A''] \<and>
   current_weights store_A3_B1 ''m'' = [3, 1] \<and>
   current_weights (snd (get_next_instance store_A3_B1 ''m'')) ''m'' = [6 - 8, 2] \<and>
   current_weights (snd (get_next_instance store_A3_B1 ''m'')) ''m'' \<noteq> [6 - (3 + 1), 2]"
  by (intro conjI) (code_simp)+

text \<open>
  C1, amended. For every selection on a model with distinct instance names in which some
  healthy instance has a positive current weight after the increment: the call returns a
  healthy instance \<open>j\<close> whose incremented current weight is maximal among the healthy ones,
  the first such in the configured order, and leaves the store in which every healthy
  instance has its effective weight added to its current weight, and \<open>j\<close> has the total
  subtracted and its active requests incremented; the total is the sum of the incremented
  current weights of the healthy instances, not of their effective weights. The
  arithmetic is that of binary64. For \<open>A\<close> (weight 3) and \<open>B\<close> (weight 1) with current
  weights 3 and 1, eight selections pick \<open>A, B, A, A, A, B, A, A\<close>.
\<close>

theorem select_step:
  "(\<forall>st model_name insts.
      map_of st model_name = Some insts \<longrightarrow>
      distinct (map fst insts) \<longrightarrow>
      (\<exists>(k, i)\<in>set (healthy_of insts). 0 < new_weight i) \<longrightarrow>
      (\<exists>j ij.
         (j, ij) \<in> set (healthy_of insts) \<and>
         (\<forall>(k, i)\<in>set (healthy_of insts). new_weight i \<le> new_weight ij) \<and>
         (\<forall>(k, i)\<in>set (takeWhile (\<lambda>(k, i). k \<noteq> j) (healthy_of insts)).
            new_weight i < new_weight ij) \<and>
         get_next_instance st model_name =
           (Inr (j, node_id (mtr ij)),
            AList.update model_name (spec_swrr_step j (incremented_total insts) insts) st))) \<and>
   current_weights store_A3_B1 ''m'' = [3, 1] \<and>
   picks store_A3_B1 ''m'' 8 =
     [Some ''A'', Some ''B'', Some ''A'', Some ''A'', Some ''A'', Some ''B'', Some ''A'', Some ''A'']"
proof (intro conjI allI impI)
  fix st :: store and model_name insts
  assume a: "map_of st model_name = Some insts" and d: "distinct (map fst insts)"
    and pos: "\<exists>(k, i)\<in>set (healthy_of insts). 0 < new_weight i"
  define H where "H = healthy_of insts"
  define tot where "tot = incremented_total insts"
  obtain insts1 sc where sl: "select_loop insts scan0 = (insts1, sc)"
    by (cases "select_loop insts scan0")
  have i1: "insts1 = map (\<lambda>(k, i). (k, bump i)) insts"
    using select_loop_fst [of insts scan0] sl by simp
  have tsc: "total sc = tot"
    using select_loop_total [of insts scan0] sl
    by (simp add: scan0_def tot_def incremented_total_def)
  have "\<not> (\<forall>(k, i)\<in>set H. new_weight i \<le> best_weight scan0)"
    using pos by (fastforce simp: scan0_def H_def)
  with select_loop_best [of insts scan0] sl obtain j ij where j:
    "(j, ij) \<in> set H" "best sc = Some (j, node_id (mtr ij))"
    "\<forall>(k, i)\<in>set H. new_weight i \<le> new_weight ij"
    "\<forall>(k, i)\<in>set (takeWhile (\<lambda>(k, i). k \<noteq> j) H). new_weight i < new_weight ij"
    unfolding H_def by auto
  have jin: "(j, ij) \<in> set insts" and jh: "node_status (mtr ij) = HEALTHY"
    using j(1) by (auto simp: H_def healthy_of_def)
  have uniq: "i = ij" if "(j, i) \<in> set insts" for i
    using d jin that by (meson eq_key_imp_eq_value)
  have d1: "distinct (map fst insts1)"
    using d by (simp add: i1 case_prod_beta comp_def)
  define f where "f = (\<lambda>i::inst. i\<lparr>wts := (wts i)\<lparr>current_weight :=
                         fsub (current_weight (wts i)) (total sc)\<rparr>\<rparr>)"
  define g where "g = (\<lambda>i::inst. i\<lparr>mtr := (mtr i)\<lparr>active_requests := active_requests (mtr i) + 1\<rparr>\<rparr>)"
  have d2: "distinct (map fst (AList.map_entry j f insts1))"
    using d1 by (rule distinct_map_entry)
  have e1: "AList.map_entry j f insts1 = map (\<lambda>(k', v). (k', if k' = j then f v else v)) insts1"
    by (rule map_entry_distinct [OF d1])
  have e2: "AList.map_entry j g (AList.map_entry j f insts1) =
      map (\<lambda>(k', v). (k', if k' = j then g v else v)) (AList.map_entry j f insts1)"
    by (rule map_entry_distinct [OF d2])
  have e3: "map (\<lambda>(k', v). (k', if k' = j then g v else v))
              (map (\<lambda>(k', v). (k', if k' = j then f v else v)) insts1) =
            spec_swrr_step j tot insts"
    unfolding i1 spec_swrr_step_def
    using uniq jh
    by (auto simp: f_def g_def bump_def new_weight_def tsc)
  have "AList.map_entry j g (AList.map_entry j f insts1) = spec_swrr_step j tot insts"
    using e2 e3 by (simp only: e1)
  then have "get_next_instance st model_name =
      (Inr (j, node_id (mtr ij)), AList.update model_name (spec_swrr_step j tot insts) st)"
    using a sl j(2) by (simp add: get_next_instance_def Let_def f_def g_def)
  then show "\<exists>j ij.
         (j, ij) \<in> set (healthy_of insts) \<and>
         (\<forall>(k, i)\<in>set (healthy_of insts). new_weight i \<le> new_weight ij) \<and>
         (\<forall>(k, i)\<in>set (takeWhile (\<lambda>(k, i). k \<noteq> j) (healthy_of insts)).
            new_weight i < new_weight ij) \<and>
         get_next_instance st model_name =
           (Inr (j, node_id (mtr ij)),
            AList.update model_name (spec_swrr_step j (incremented_total insts) insts) st)"
    using j unfolding H_def tot_def by blast
qed (code_simp)+

text \<open>
  The theorem at the store \<^verbatim>\<open>initialize\<close> builds for \<open>A\<close> (weight 3) and \<open>B\<close> (weight 1): the
  hypotheses hold there, the incremented current weights are 6 and 2, and the first
  selection is the step with total 8, which returns \<open>A\<close> and leaves the current weights
  \<open>-2\<close> and 2.
\<close>

theorem select_step_witness:
  "\<exists>insts. map_of store_A3_B1 ''m'' = Some insts \<and>
     distinct (map fst insts) \<and>
     (\<exists>(k, i)\<in>set (healthy_of insts). 0 < new_weight i) \<and>
     map (\<lambda>(k, i). new_weight i) (healthy_of insts) = [6, 2] \<and>
     incremented_total insts = 8 \<and>
     (\<exists>j ij.
        (j, ij) \<in> set (healthy_of insts) \<and>
        (\<forall>(k, i)\<in>set (healthy_of insts). new_weight i \<le> new_weight ij) \<and>
        get_next_instance store_A3_B1 ''m'' =
          (Inr (j, node_id (mtr ij)),
           AList.update ''m'' (spec_swrr_step j 8 insts) store_A3_B1)) \<and>
     fst (get_next_instance store_A3_B1 ''m'') = Inr (''A'', ''10.0.0.1:8000'') \<and>
     current_weights (snd (get_next_instance store_A3_B1 ''m'')) ''m'' = [- 2, 2]"
proof -
  define insts where "insts = the (map_of store_A3_B1 ''m'')"
  have a: "map_of store_A3_B1 ''m'' = Some insts"
    unfolding insts_def by code_simp
  have d: "distinct (map fst insts)"
    unfolding insts_def by code_simp
  have pos: "\<exists>(k, i)\<in>set (healthy_of insts). 0 < new_weight i"
    unfolding insts_def by code_simp
  have nw: "map (\<lambda>(k, i). new_weight i) (healthy_of insts) = [6, 2]"
    unfolding insts_def by code_simp
  have t: "incremented_total insts = 8"
    unfolding insts_def by code_simp
  have r: "fst (get_next_instance store_A3_B1 ''m'') = Inr (''A'', ''10.0.0.1:8000'')"
    "current_weights (snd (get_next_instance store_A3_B1 ''m'')) ''m'' = [- 2, 2]"
    by code_simp+
  from select_step [THEN conjunct1, rule_format, OF a d pos]
  have ex: "\<exists>j ij.
        (j, ij) \<in> set (healthy_of insts) \<and>
        (\<forall>(k, i)\<in>set (healthy_of insts). new_weight i \<le> new_weight ij) \<and>
        get_next_instance store_A3_B1 ''m'' =
          (Inr (j, node_id (mtr ij)),
           AList.update ''m'' (spec_swrr_step j 8 insts) store_A3_B1)"
    unfolding t by blast
  show ?thesis
    apply (rule exI [of _ insts])
    apply (intro conjI)
           apply (rule a d pos nw t ex r)+
    done
qed
subsection \<open>The handler\<close>

text \<open>The handler has no path that returns a \<^verbatim>\<open>Response\<close>.\<close>

lemma model_request_never_returns_response:
  "fst (model_request L clk st model_name request_json up) \<noteq> Response code hs body"
  by (auto simp: model_request_def outer_except_def Let_def
      split: prod.splits sum.splits option.splits upstream.splits exn.splits if_splits)

text \<open>
  C3. A request for the model \<open>nope\<close>, which the store of the example does not have: the
  store is returned as it was, and the answer is 503, service unavailable, wrapping the
  404 the selector raised.
\<close>

theorem unknown_model_is_answered_503:
  "model_request example_lib example_clock store_A3_B1 ''nope'' None (ok_stream []) =
     (Raised (HTTPException 503
        (ServiceUnavailable (HTTPException 404 (ModelNotConfigured ''nope'')))),
      store_A3_B1)"
  by code_simp

text \<open>
  C2. A unary request (no JSON body) whose upstream answers 200 with a body that carries
  \<^verbatim>\<open>usage.total_tokens\<close>: the answer is 500, for the \<^verbatim>\<open>NameError\<close> of the name \<^verbatim>\<open>data\<close>, and
  the selected instance \<open>A\<close> keeps its counters: no token, no request counted, and the
  active request of the selection still open.
\<close>

theorem unary_200_is_answered_500:
  \<open>fst (model_request example_lib example_clock store_A3_B1 ''m'' None
          (ok_stream [''{"usage":{"total_tokens":7}}''])) =
     Raised (HTTPException 500 (InternalServerError (NameError ''data''))) \<and>
   counters (snd (model_request example_lib example_clock store_A3_B1 ''m'' None
          (ok_stream [''{"usage":{"total_tokens":7}}'']))) ''m'' ''A'' = Some (0, 0, 0, 1)\<close>
  by (intro conjI) (code_simp)+

text \<open>
  C5. A streaming request whose upstream answers 429: the answer is 500 (wrapping the
  429), and the commit, made for the node identifier and not for the instance name,
  changes nothing: \<open>A\<close> has no request and no error counted, its active request is still
  open, and its weight, failure count and status are as before.
\<close>

theorem stream_status_429_is_answered_500:
  "fst (model_request example_lib example_clock store_A3_B1 ''m'' stream_request
          (Responds \<lparr>up_status = 429, up_headers = [], up_chunks = [''busy''],
                      up_stream_error = None\<rparr>)) =
     Raised (HTTPException 500
       (InternalServerError (HTTPException 429 (UpstreamStatusError 429)))) \<and>
   counters (snd (model_request example_lib example_clock store_A3_B1 ''m'' stream_request
          (Responds \<lparr>up_status = 429, up_headers = [], up_chunks = [''busy''],
                      up_stream_error = None\<rparr>))) ''m'' ''A'' = Some (0, 0, 0, 1) \<and>
   weight_view (snd (model_request example_lib example_clock store_A3_B1 ''m'' stream_request
          (Responds \<lparr>up_status = 429, up_headers = [], up_chunks = [''busy''],
                      up_stream_error = None\<rparr>))) ''m'' ''A'' = Some (3, 0, HEALTHY)"
  by (intro conjI) (code_simp)+

text \<open>
  C9. A stream of two chunks, the first a line whose object has \<^verbatim>\<open>"usage": null\<close>: the
  parser raises \<^verbatim>\<open>AttributeError\<close> before the first chunk is yielded, so the caller gets
  none of the 38 bytes the upstream sent.
\<close>

theorem stream_usage_null_is_cut:
  \<open>fst (model_request example_lib example_clock store_A3_B1 ''m'' stream_request
          (ok_stream [data_line ''{"usage":null}'', data_line ''{"id":"x"}''])) =
     StreamingResponse 200 ''text/event-stream'' [] (Some AttributeError) \<and>
   length (concat [data_line ''{"usage":null}'', data_line ''{"id":"x"}'']) = 38\<close>
  by (intro conjI) (code_simp)+

text \<open>
  C8, as stated, fails. A stream with counts 7 + 5 and an object that has both
  \<^verbatim>\<open>metadata.usage.total_tokens = 42\<close> and \<^verbatim>\<open>usage.total_tokens = 9\<close> commits 9; a stream with
  counts 7 + 5 and \<^verbatim>\<open>metadata.usage.total_tokens = 0\<close> commits 12, the counts the byte scan
  finds. The token total of \<open>A\<close> was 0 before.
\<close>

theorem stream_token_priority_counterexample:
  \<open>counters store_A3_B1 ''m'' ''A'' = Some (0, 0, 0, 0) \<and>
   counters (snd (model_request example_lib example_clock store_A3_B1 ''m'' stream_request
       (ok_stream [data_line ''{"prompt_eval_count":7,"eval_count":5}'',
                   data_line ''{"metadata":{"usage":{"total_tokens":42}},"usage":{"total_tokens":9}}''])))
     ''m'' ''A'' = Some (9, 1, 0, 0) \<and>
   counters (snd (model_request example_lib example_clock store_A3_B1 ''m'' stream_request
       (ok_stream [data_line ''{"prompt_eval_count":7,"eval_count":5}'',
                   data_line ''{"metadata":{"usage":{"total_tokens":0}}}''])))
     ''m'' ''A'' = Some (12, 1, 0, 0)\<close>
  by (intro conjI) (code_simp)+

subsection \<open>The stream tee\<close>

declare drain.simps [simp del] lines_of.simps [simp del] last_partial.simps [simp del]

lemma drain_lines:
  "drain L buf a =
     (case account_lines L (lines_of buf) a of
        Inl x \<Rightarrow> Inl x
      | Inr a' \<Rightarrow> Inr (last_partial buf, a'))"
proof (induction L buf a rule: drain.induct)
  case (1 L buf a)
  show ?case
  proof (cases "newline \<in> set buf")
    case False
    then show ?thesis
      by (simp add: drain.simps [of L buf] lines_of.simps [of buf] last_partial.simps [of buf])
  next
    case True
    obtain r a' where pl: "process_line L (takeWhile (\<lambda>c. c \<noteq> newline) buf) a = (r, a')"
      by (cases "process_line L (takeWhile (\<lambda>c. c \<noteq> newline) buf) a")
    show ?thesis
    proof (cases r)
      case None
      have lp: "last_partial buf = last_partial (tl (dropWhile (\<lambda>c. c \<noteq> newline) buf))"
        using True by (simp add: last_partial.simps [of buf])
      have "drain L buf a = drain L (tl (dropWhile (\<lambda>c. c \<noteq> newline) buf)) a'"
        using True pl None by (simp add: drain.simps [of L buf])
      also note 1 [OF True refl refl pl [unfolded None, symmetric] refl]
      finally show ?thesis
        unfolding lp using True pl None by (simp add: lines_of.simps [of buf])
    next
      case (Some e)
      with True pl show ?thesis
        by (simp add: drain.simps [of L buf] lines_of.simps [of buf])
    qed
  qed
qed

lemma split_at_newline:
  "newline \<in> set a \<Longrightarrow>
   takeWhile (\<lambda>c. c \<noteq> newline) (a @ b) = takeWhile (\<lambda>c. c \<noteq> newline) a \<and>
   tl (dropWhile (\<lambda>c. c \<noteq> newline) (a @ b)) = tl (dropWhile (\<lambda>c. c \<noteq> newline) a) @ b"
  by (induction a) auto

lemma lines_of_append:
  "lines_of (a @ b) = lines_of a @ lines_of (last_partial a @ b)"
proof (induction a rule: lines_of.induct)
  case (1 a)
  show ?case
  proof (cases "newline \<in> set a")
    case False
    then show ?thesis
      by (simp add: lines_of.simps [of a] last_partial.simps [of a])
  next
    case True
    then have "newline \<in> set (a @ b)" by simp
    with True 1 [OF True] split_at_newline [OF True, of b] show ?thesis
      by (simp add: lines_of.simps [of a] lines_of.simps [of "a @ b"] last_partial.simps [of a])
  qed
qed

lemma last_partial_append:
  "last_partial (a @ b) = last_partial (last_partial a @ b)"
proof (induction a rule: last_partial.induct)
  case (1 a)
  show ?case
  proof (cases "newline \<in> set a")
    case False
    then show ?thesis by (simp add: last_partial.simps [of a])
  next
    case True
    then have "newline \<in> set (a @ b)" by simp
    with True 1 [OF True] split_at_newline [OF True, of b] show ?thesis
      by (simp add: last_partial.simps [of a] last_partial.simps [of "a @ b"])
  qed
qed

lemma account_lines_append:
  "account_lines L (xs @ ys) a =
     (case account_lines L xs a of
        Inl x \<Rightarrow> Inl x
      | Inr a' \<Rightarrow> account_lines L ys a')"
  by (induction xs arbitrary: a) (auto split: prod.splits option.splits)


lemma last_partial_no_newline: "newline \<notin> set (last_partial buf)"
  by (induction buf rule: last_partial.induct) (simp add: last_partial.simps)

lemma lines_of_no_newline: "newline \<notin> set buf \<Longrightarrow> lines_of buf = []"
  by (simp add: lines_of.simps [of buf])

lemma tee_accounting:
  "tee L chunks se s = (ys, r, s') \<Longrightarrow> newline \<notin> set (decoded_buffer s) \<Longrightarrow>
   account_lines L (lines_of (decoded_buffer s @ stream_text L chunks)) (accounting s) = Inr a \<Longrightarrow>
   r = se \<and> accounting s' = a \<and> ys = filter (\<lambda>c. c \<noteq> []) chunks \<and>
   concat (collected_content s') = concat (collected_content s) @ collected_bytes L chunks"
proof (induction chunks arbitrary: s ys r s')
  case Nil
  then show ?case
    by (auto simp: stream_text_def collected_bytes_def lines_of_no_newline)
next
  case (Cons chunk chunks)
  note nl = Cons.prems(2) and acc = Cons.prems(3)
  show ?case
  proof (cases "chunk = []")
    case True
    with Cons.prems(1) have t: "tee L chunks se s = (ys, r, s')" by simp
    have st: "stream_text L (chunk # chunks) = stream_text L chunks"
      "collected_bytes L (chunk # chunks) = collected_bytes L chunks"
      using True by (simp_all add: stream_text_def collected_bytes_def)
    from Cons.IH [OF t nl acc [unfolded st]] True show ?thesis
      by (simp add: collected_bytes_def)
  next
    case ne: False
    define s1 where "s1 = s\<lparr>collected_content := collected_content s @ [chunk]\<rparr>"
    show ?thesis
    proof (cases "utf8_decode L chunk")
      case None
      define s2 where "s2 = s1\<lparr>collected_content := collected_content s1 @ [chunk]\<rparr>"
      obtain ys0 r0 s0 where t: "tee L chunks se s2 = (ys0, r0, s0)"
        by (metis prod_cases3)
      with Cons.prems(1) ne None have eq: "ys = chunk # ys0" "r = r0" "s' = s0"
        by (simp_all add: s1_def s2_def Let_def)
      have st: "stream_text L (chunk # chunks) = stream_text L chunks"
        using ne None by (simp add: stream_text_def)
      have cb: "collected_bytes L (chunk # chunks) = chunk @ chunk @ collected_bytes L chunks"
        using ne None by (simp add: collected_bytes_def)
      have b: "decoded_buffer s2 = decoded_buffer s" "accounting s2 = accounting s"
        "concat (collected_content s2) = concat (collected_content s) @ chunk @ chunk"
        by (simp_all add: s2_def s1_def)
      from Cons.IH [OF t] nl acc show ?thesis
        unfolding st eq b cb using ne by simp
    next
      case (Some chunk_str)
      have st: "decoded_buffer s @ stream_text L (chunk # chunks) =
                (decoded_buffer s @ chunk_str) @ stream_text L chunks"
        using ne Some by (simp add: stream_text_def)
      have cb: "collected_bytes L (chunk # chunks) = chunk @ collected_bytes L chunks"
        using ne Some by (simp add: collected_bytes_def)
      have lines: "lines_of (decoded_buffer s @ stream_text L (chunk # chunks)) =
          lines_of (decoded_buffer s @ chunk_str) @
          lines_of (last_partial (decoded_buffer s @ chunk_str) @ stream_text L chunks)"
        unfolding st by (rule lines_of_append)
      from acc [unfolded lines account_lines_append]
      obtain a1 where a1: "account_lines L (lines_of (decoded_buffer s @ chunk_str)) (accounting s) = Inr a1"
        and a2: "account_lines L
           (lines_of (last_partial (decoded_buffer s @ chunk_str) @ stream_text L chunks)) a1 = Inr a"
        by (auto split: sum.splits)
      have d: "drain L (decoded_buffer s1 @ chunk_str) (accounting s1) =
                 Inr (last_partial (decoded_buffer s @ chunk_str), a1)"
        using a1 by (simp add: drain_lines s1_def)
      define s2 where "s2 = s1\<lparr>accounting := a1,
          decoded_buffer := last_partial (decoded_buffer s @ chunk_str)\<rparr>"
      obtain ys0 r0 s0 where t: "tee L chunks se s2 = (ys0, r0, s0)"
        by (metis prod_cases3)
      with Cons.prems(1) ne Some d have eq: "ys = chunk # ys0" "r = r0" "s' = s0"
        by (simp_all add: s1_def s2_def Let_def)
      have b: "decoded_buffer s2 = last_partial (decoded_buffer s @ chunk_str)"
        "accounting s2 = a1"
        "concat (collected_content s2) = concat (collected_content s) @ chunk"
        by (simp_all add: s2_def s1_def)
      have "newline \<notin> set (decoded_buffer s2)"
        by (simp add: b last_partial_no_newline)
      from Cons.IH [OF t this] a2 show ?thesis
        unfolding eq b cb using ne by simp
    qed
  qed
qed

lemma add_counts_from_zero:
  "add_counts data tc = Inr n \<Longrightarrow> add_counts data 0 = Inr (n - tc)"
  by (auto simp: add_counts_def split: sum.splits option.splits)

lemma account_effect:
  "account data (tc, fin) = (None, (tc', fin')) \<Longrightarrow>
   tc' = tc + object_counts data \<and>
   fin' = (case reported_total data of None \<Rightarrow> fin | Some v \<Rightarrow> v)"
  by (auto simp: account_def reported_total_def object_counts_def
      split: sum.splits bool.splits option.splits dest: add_counts_from_zero)

lemma process_line_effect:
  "process_line L l (tc, fin) = (None, (tc', fin')) \<Longrightarrow>
   tc' = tc + line_counts L l \<and>
   fin' = (case line_total L l of None \<Rightarrow> fin | Some v \<Rightarrow> v)"
  by (auto simp: process_line_def line_total_def line_counts_def line_object_def Let_def
      split: if_splits option.splits dest: account_effect)

lemma account_lines_effect:
  "account_lines L ls (tc, fin) = Inr (tc', fin') \<Longrightarrow>
   tc' = tc + sum_list (map (line_counts L) ls) \<and>
   fin' = foldl (\<lambda>fin line. case line_total L line of None \<Rightarrow> fin | Some v \<Rightarrow> v) fin ls"
proof (induction ls arbitrary: tc fin)
  case Nil
  then show ?case by simp
next
  case (Cons l ls)
  obtain r tc1 fin1 where pl: "process_line L l (tc, fin) = (r, (tc1, fin1))"
    by (metis prod_cases3)
  with Cons.prems have r: "r = None" and rest: "account_lines L ls (tc1, fin1) = Inr (tc', fin')"
    by (auto split: option.splits)
  from process_line_effect [OF pl [unfolded r]]
  have one: "tc1 = tc + line_counts L l"
    "fin1 = (case line_total L l of None \<Rightarrow> fin | Some v \<Rightarrow> v)"
    by simp_all
  from Cons.IH [OF rest] show ?case
    unfolding one by simp
qed

lemma generate_commits_stream_tokens:
  assumes ok: "account_lines L (lines_of (stream_text L (up_chunks response))) (0, JNull) = Inr a"
  shows "generate L clk st model_name nid response =
     (case commit_tokens st (commit_time clk) model_name nid
             (real_of_int \<lceil>(gen_end_time clk - gen_start_time clk) * 1000 * 100\<rceil> / 100)
             (up_stream_error response \<noteq> None \<or> up_status response \<ge> 400)
             (stream_tokens L (up_chunks response)) of
        (Some e, st') \<Rightarrow> ((filter (\<lambda>c. c \<noteq> []) (up_chunks response), Some e), st')
      | (None, st') \<Rightarrow>
          ((filter (\<lambda>c. c \<noteq> []) (up_chunks response), up_stream_error response), st'))"
proof -
  obtain ys r s' where t: "tee L (up_chunks response) (up_stream_error response) tee_state0 = (ys, r, s')"
    by (metis prod_cases3)
  have "r = up_stream_error response \<and> accounting s' = a \<and>
        ys = filter (\<lambda>c. c \<noteq> []) (up_chunks response) \<and>
        concat (collected_content s') =
          concat (collected_content tee_state0) @ collected_bytes L (up_chunks response)"
    using tee_accounting [OF t, of a] ok by (simp add: tee_state0_def)
  then have r: "r = up_stream_error response" and acc: "accounting s' = a"
    and ys: "ys = filter (\<lambda>c. c \<noteq> []) (up_chunks response)"
    and cc: "concat (collected_content s') = collected_bytes L (up_chunks response)"
    by (simp_all add: tee_state0_def)
  obtain tc fin where ap: "a = (tc, fin)" by (cases a)
  from account_lines_effect [OF ok [unfolded ap]]
  have tc: "tc = stream_counts L (lines_of (stream_text L (up_chunks response)))"
    and fin: "fin = stream_final L (lines_of (stream_text L (up_chunks response)))"
    by (simp_all add: stream_counts_def stream_final_def)
  have ft: "final_tokens L s' = stream_tokens L (up_chunks response)"
    unfolding final_tokens_def stream_tokens_def acc ap cc tc fin by (simp add: Let_def)
  show ?thesis
    using t r ys ft
    by (simp add: generate_def Let_def split: prod.splits option.splits)
qed

lemma stream_final_last:
  assumes "line_total L l = Some v" "\<forall>l'\<in>set ls2. line_total L l' = None"
  shows "stream_final L (ls1 @ l # ls2) = v"
proof -
  have keep: "foldl (\<lambda>fin line. case line_total L line of None \<Rightarrow> fin | Some v \<Rightarrow> v) x ls2 = x" for x
    using assms(2) by (induction ls2 arbitrary: x) simp_all
  show ?thesis
    using assms(1) by (simp add: stream_final_def keep)
qed

lemma stream_final_none:
  "\<forall>l\<in>set ls. line_total L l = None \<Longrightarrow> stream_final L ls = JNull"
  unfolding stream_final_def
  by (induction ls) simp_all

text \<open>
  C8, amended. For every stream that the parser reads without an exception, whatever
  the chunk boundaries, the generator yields every non-empty chunk and commits the token count of
  the stream, which is decided by the last parsed object that reports a total: its
  top-level \<^verbatim>\<open>usage.total_tokens\<close> when it has the key \<^verbatim>\<open>usage\<close>, also when it has
  \<^verbatim>\<open>metadata.usage.total_tokens\<close> as well, and its \<^verbatim>\<open>metadata.usage.total_tokens\<close> otherwise.
  The counts of the lines are used only when no object reports a total (or the last one
  reports \<^verbatim>\<open>null\<close>), and a resulting count of 0 is replaced by the result of the byte scan
  over the collected bytes. In particular, when the last object that reports a total has
  \<^verbatim>\<open>metadata.usage.total_tokens = A\<close>, non-zero, and no top-level \<^verbatim>\<open>usage\<close> key, the commit
  has \<^verbatim>\<open>token_count = A\<close>, whatever the counts sum to.
\<close>

theorem stream_commits_last_reported_total:
  assumes ok: "account_lines L (lines_of (stream_text L (up_chunks response))) (0, JNull) = Inr a"
  shows "generate L clk st model_name nid response =
     (case commit_tokens st (commit_time clk) model_name nid
             (real_of_int \<lceil>(gen_end_time clk - gen_start_time clk) * 1000 * 100\<rceil> / 100)
             (up_stream_error response \<noteq> None \<or> up_status response \<ge> 400)
             (stream_tokens L (up_chunks response)) of
        (Some e, st') \<Rightarrow> ((filter (\<lambda>c. c \<noteq> []) (up_chunks response), Some e), st')
      | (None, st') \<Rightarrow>
          ((filter (\<lambda>c. c \<noteq> []) (up_chunks response), up_stream_error response), st')) \<and>
   (\<forall>ls1 l ls2 d v.
      lines_of (stream_text L (up_chunks response)) = ls1 @ l # ls2 \<longrightarrow>
      line_object L l = Some d \<longrightarrow> reported_total d = Some v \<longrightarrow>
      (\<forall>l'\<in>set ls2. line_total L l' = None) \<longrightarrow>
      stream_tokens L (up_chunks response) =
        (let tok = (if v \<noteq> JNull then v
                    else JInt (stream_counts L (lines_of (stream_text L (up_chunks response)))))
         in if py_is_zero tok
            then JInt (scan_collected L (collected_bytes L (up_chunks response)))
            else tok)) \<and>
   ((\<forall>l\<in>set (lines_of (stream_text L (up_chunks response))). line_total L l = None) \<longrightarrow>
      stream_tokens L (up_chunks response) =
        (if stream_counts L (lines_of (stream_text L (up_chunks response))) = 0
         then JInt (scan_collected L (collected_bytes L (up_chunks response)))
         else JInt (stream_counts L (lines_of (stream_text L (up_chunks response)))))) \<and>
   (\<forall>kv ukv U.
      map_of kv ''usage'' = Some (JObj ukv) \<longrightarrow> map_of ukv ''total_tokens'' = Some U \<longrightarrow>
      reported_total (JObj kv) = Some U) \<and>
   (\<forall>kv mkv ukv A.
      map_of kv ''usage'' = None \<longrightarrow> map_of kv ''metadata'' = Some (JObj mkv) \<longrightarrow>
      map_of mkv ''usage'' = Some (JObj ukv) \<longrightarrow> map_of ukv ''total_tokens'' = Some A \<longrightarrow>
      reported_total (JObj kv) = Some A)"
proof (intro conjI allI impI)
  show "generate L clk st model_name nid response =
     (case commit_tokens st (commit_time clk) model_name nid
             (real_of_int \<lceil>(gen_end_time clk - gen_start_time clk) * 1000 * 100\<rceil> / 100)
             (up_stream_error response \<noteq> None \<or> up_status response \<ge> 400)
             (stream_tokens L (up_chunks response)) of
        (Some e, st') \<Rightarrow> ((filter (\<lambda>c. c \<noteq> []) (up_chunks response), Some e), st')
      | (None, st') \<Rightarrow>
          ((filter (\<lambda>c. c \<noteq> []) (up_chunks response), up_stream_error response), st'))"
    by (rule generate_commits_stream_tokens [OF ok])
next
  fix ls1 l ls2 d v
  assume lines: "lines_of (stream_text L (up_chunks response)) = ls1 @ l # ls2"
    and obj: "line_object L l = Some d" and rep: "reported_total d = Some v"
    and later: "\<forall>l'\<in>set ls2. line_total L l' = None"
  have "line_total L l = Some v" using obj rep by (simp add: line_total_def)
  from stream_final_last [OF this later, of ls1]
  have "stream_final L (lines_of (stream_text L (up_chunks response))) = v"
    by (simp only: lines)
  then show "stream_tokens L (up_chunks response) =
        (let tok = (if v \<noteq> JNull then v
                    else JInt (stream_counts L (lines_of (stream_text L (up_chunks response)))))
         in if py_is_zero tok
            then JInt (scan_collected L (collected_bytes L (up_chunks response)))
            else tok)"
    by (simp add: stream_tokens_def Let_def)
next
  assume "\<forall>l\<in>set (lines_of (stream_text L (up_chunks response))). line_total L l = None"
  from stream_final_none [OF this]
  show "stream_tokens L (up_chunks response) =
        (if stream_counts L (lines_of (stream_text L (up_chunks response))) = 0
         then JInt (scan_collected L (collected_bytes L (up_chunks response)))
         else JInt (stream_counts L (lines_of (stream_text L (up_chunks response)))))"
    by (simp add: stream_tokens_def Let_def)
next
  fix kv ukv U
  assume "map_of kv ''usage'' = Some (JObj ukv)" "map_of ukv ''total_tokens'' = Some U"
  then show "reported_total (JObj kv) = Some U"
    by (simp add: reported_total_def)
next
  fix kv mkv ukv A
  assume "map_of kv ''usage'' = None" "map_of kv ''metadata'' = Some (JObj mkv)"
    "map_of mkv ''usage'' = Some (JObj ukv)" "map_of ukv ''total_tokens'' = Some A"
  then show "reported_total (JObj kv) = Some A"
    by (simp add: reported_total_def metadata_usage_def)
qed

text \<open>
  The theorem at the stream whose chunks are cut inside lines: the parser raises no
  exception, the last object that reports a total is the one with
  \<^verbatim>\<open>metadata.usage.total_tokens = 42\<close>, and the commit adds 42 tokens, not the 12 of the
  counts.
\<close>

theorem stream_commits_last_reported_total_witness:
  \<open>account_lines example_lib (lines_of (stream_text example_lib (up_chunks split_response)))
     (0, JNull) = Inr (12, JInt 42) \<and>
   lines_of (stream_text example_lib (up_chunks split_response)) =
     [''data: {"prompt_eval_count":7,"eval_count":5}''] @
     ''data: {"metadata":{"usage":{"total_tokens":42}}}'' # [''data: {"id":"x"}''] \<and>
   line_object example_lib ''data: {"metadata":{"usage":{"total_tokens":42}}}'' =
     Some (JObj [(''metadata'', JObj [(''usage'', JObj [(''total_tokens'', JInt 42)])])]) \<and>
   reported_total (JObj [(''metadata'', JObj [(''usage'', JObj [(''total_tokens'', JInt 42)])])]) =
     Some (JInt 42) \<and>
   line_total example_lib ''data: {"id":"x"}'' = None \<and>
   stream_counts example_lib (lines_of (stream_text example_lib (up_chunks split_response))) = 12 \<and>
   stream_tokens example_lib (up_chunks split_response) = JInt 42 \<and>
   generate example_lib example_clock store_A3_B1 ''m'' ''A'' split_response =
     ((split_stream, None),
      snd (update_instance_metrics store_A3_B1 13 ''m'' ''A'' 1000 False 42)) \<and>
   counters (snd (generate example_lib example_clock store_A3_B1 ''m'' ''A'' split_response))
     ''m'' ''A'' = Some (42, 1, 0, 0)\<close>
proof -
  have h0: "account_lines example_lib (lines_of (stream_text example_lib (up_chunks split_response)))
     (0, JNull) = Inr (12, JInt 42)"
    by code_simp
  note at_split = stream_commits_last_reported_total [OF h0, of example_clock store_A3_B1 "''m''" "''A''"]
  have h1: \<open>lines_of (stream_text example_lib (up_chunks split_response)) =
     [''data: {"prompt_eval_count":7,"eval_count":5}''] @
     ''data: {"metadata":{"usage":{"total_tokens":42}}}'' # [''data: {"id":"x"}'']\<close>
    by code_simp
  have h2: \<open>line_object example_lib ''data: {"metadata":{"usage":{"total_tokens":42}}}'' =
     Some (JObj [(''metadata'', JObj [(''usage'', JObj [(''total_tokens'', JInt 42)])])])\<close>
    by code_simp
  have h3: "reported_total (JObj [(''metadata'', JObj [(''usage'', JObj [(''total_tokens'', JInt 42)])])]) =
     Some (JInt 42)"
    by (rule at_split [THEN conjunct2, THEN conjunct2, THEN conjunct2, THEN conjunct2, rule_format,
          of _ "[(''usage'', JObj [(''total_tokens'', JInt 42)])]" "[(''total_tokens'', JInt 42)]"])
       simp_all
  have h4: \<open>line_total example_lib ''data: {"id":"x"}'' = None\<close>
    by code_simp
  have h5: \<open>\<forall>l'\<in>set [''data: {"id":"x"}'']. line_total example_lib l' = None\<close>
    using h4 by simp
  have h6: "stream_counts example_lib (lines_of (stream_text example_lib (up_chunks split_response))) = 12"
    by code_simp
  have tok: "stream_tokens example_lib (up_chunks split_response) = JInt 42"
    using at_split [THEN conjunct2, THEN conjunct1, rule_format, OF h1 h2 h3 h5 [rule_format]]
    by (simp add: Let_def)
  have t: "real_of_int \<lceil>(gen_end_time example_clock - gen_start_time example_clock) * 1000 * 100\<rceil> / 100
      = 1000" "commit_time example_clock = 13"
    "(up_stream_error split_response \<noteq> None \<or> up_status split_response \<ge> 400) = False"
    "filter (\<lambda>c. c \<noteq> []) (up_chunks split_response) = split_stream"
    "up_stream_error split_response = None"
    by code_simp+
  have u: "fst (update_instance_metrics store_A3_B1 13 ''m'' ''A'' 1000 False 42) = None"
    by code_simp
  have g': "generate example_lib example_clock store_A3_B1 ''m'' ''A'' split_response =
     ((split_stream, None),
      snd (update_instance_metrics store_A3_B1 13 ''m'' ''A'' 1000 False 42))"
    using u unfolding at_split [THEN conjunct1] tok t
    by (simp add: commit_tokens_def case_prod_beta split_response_def)
  have c: "counters (snd (update_instance_metrics store_A3_B1 13 ''m'' ''A'' 1000 False 42))
     ''m'' ''A'' = Some (42, 1, 0, 0)"
    by code_simp
  show ?thesis
    using h0 h1 h2 h3 h4 h6 tok g' c by (simp only: snd_conv simp_thms)
qed
subsection \<open>The metrics snapshots\<close>

lemma store_A20_value:
  "store_A20 =
     [(''m'',
       [(''A'',
         \<lparr>wts = \<lparr>current_weight = 20, effective_weight = 20, history_failures = 0\<rparr>,
          mtr = \<lparr>node_name = ''A'', ip_address = ''10.0.0.1'', node_status = HEALTHY,
                  balance = BALANCED, load_rate = 0, token_total = 0, inference_time = 0,
                  weight = 20, node_id = ''10.0.0.1:8000'', active_requests = 0,
                  request_count = 0, error_count = 0, last_update = 0,
                  load_threshold = 100, load_history = []\<rparr>\<rparr>)])]"
  by code_simp

lemma busy_store_value:
  "busy_store =
     [(''m'',
       [(''A'',
         \<lparr>wts = \<lparr>current_weight = 0,
                  effective_weight = 6206523236469965 / 281474976710656,
                  history_failures = 0\<rparr>,
          mtr = \<lparr>node_name = ''A'', ip_address = ''10.0.0.1'', node_status = HEALTHY,
                  balance = BALANCED, load_rate = 1 / 1500, token_total = 84,
                  inference_time = 100, weight = 6206523236469965 / 281474976710656,
                  node_id = ''10.0.0.1:8000'',
                  active_requests = 0, request_count = 2, error_count = 0,
                  last_update = 2, load_threshold = 100,
                  load_history = [(1, 2), (2, 1)]\<rparr>\<rparr>)])]"
  by code_simp

lemma random_if_zero_nonzero: "val \<noteq> 0 \<Longrightarrow> random_if_zero val rfunc g = (val, g)"
  by (simp add: random_if_zero_def)

lemma node_view_random_nonzero:
  "node_nonzero (node_view_of node) \<Longrightarrow> node_view_random R node g = (node_view_of node, g)"
  by (simp add: node_nonzero_def node_view_of_def node_view_random_def random_if_zero_nonzero)

lemma node_views_random_nonzero:
  "list_all node_nonzero (map node_view_of nodes) \<Longrightarrow>
   node_views_random R nodes g = (map node_view_of nodes, g)"
  by (induction nodes arbitrary: g) (simp_all add: node_view_random_nonzero)

lemma global_view_random_nonzero:
  "global_nonzero v \<Longrightarrow> global_view_random R v g = (v, g)"
  by (simp add: global_nonzero_def global_view_random_def random_if_zero_nonzero)

lemma np_std_single: "np_std [w] = 0"
  by (simp add: np_std_def np_mean_def)

lemma lb_degree_single: "w \<noteq> 0 \<Longrightarrow> lb_degree [w] = 1"
  by (simp add: lb_degree_def np_std_single np_mean_def)

lemma busy_nz: "no_zero_field seconds_text 5 busy_store"
  unfolding busy_store_value
  apply (simp add: no_zero_field_def get_service_metrics_def get_global_metrics_def sorted_nodes_def
    node_view_of_def node_nonzero_def global_nonzero_def global_view_of_def lb_degree_single
    np_mean_def py_round_def round_half_even_def Let_def)
  done

lemmas snapshot_defs =
  get_combined_metrics_def sorted_nodes_def node_view_random_def global_view_random_def
  global_view_of_def random_if_zero_def rounded_uniform_def list_random_def
  lb_degree_single np_mean_def py_round_def round_half_even_def Let_def draws_def

lemma first_read:
  "get_combined_metrics list_random seconds_text 5 store_A20 draws =
     (\<lparr>global_metrics =
         [(''m'', \<lparr>gv_nodes = 1, gv_healthy = 1, gv_balance_degree = 100, gv_tokens = 1000,
                   gv_inference_time = 10, gv_load_rate = 10, gv_active = 1,
                   gv_throughput = 10, gv_update_time = ''1970-01-01 00:00:05''\<rparr>)],
       node_metrics =
         [(''m'', [\<lparr>nv_name = ''A'', nv_ip = ''10.0.0.1'', nv_status = HEALTHY,
                    nv_balance = BALANCED, nv_load_rate = 1/10, nv_tokens = 100,
                    nv_inference_time = 10, nv_weight = 20\<rparr>])]\<rparr>,
      [1/2, 1/2, 1/2, 1/2, 1/2, 1/2, 1/2])"
  unfolding store_A20_value
  by (simp add: snapshot_defs seconds_text_def)

lemma second_read:
  "get_combined_metrics list_random seconds_text 5 store_A20 [1/2, 1/2, 1/2, 1/2, 1/2, 1/2, 1/2] =
     (\<lparr>global_metrics =
         [(''m'', \<lparr>gv_nodes = 1, gv_healthy = 1, gv_balance_degree = 100, gv_tokens = 5500,
                   gv_inference_time = 55, gv_load_rate = 45, gv_active = 1,
                   gv_throughput = 55, gv_update_time = ''1970-01-01 00:00:05''\<rparr>)],
       node_metrics =
         [(''m'', [\<lparr>nv_name = ''A'', nv_ip = ''10.0.0.1'', nv_status = HEALTHY,
                    nv_balance = BALANCED, nv_load_rate = 9/20, nv_tokens = 5050,
                    nv_inference_time = 55, nv_weight = 20\<rparr>])]\<rparr>,
      [])"
  unfolding store_A20_value
  by (simp add: snapshot_defs seconds_text_def)

text \<open>
  C4, as stated, fails for the combined snapshot: two reads of the store of one fresh
  instance, at the same time and with no call in between, the second with the generator
  state the first left, report different values, since every field that is 0 is replaced
  by a random number.
\<close>

theorem combined_snapshot_counterexample:
  "fst (get_combined_metrics list_random seconds_text 5 store_A20 draws) \<noteq>
   fst (get_combined_metrics list_random seconds_text 5 store_A20
          (snd (get_combined_metrics list_random seconds_text 5 store_A20 draws))) \<and>
   node_metrics (fst (get_combined_metrics list_random seconds_text 5 store_A20 draws)) =
     [(''m'', [\<lparr>nv_name = ''A'', nv_ip = ''10.0.0.1'', nv_status = HEALTHY,
                nv_balance = BALANCED, nv_load_rate = 1/10, nv_tokens = 100,
                nv_inference_time = 10, nv_weight = 20\<rparr>])] \<and>
   node_metrics (fst (get_combined_metrics list_random seconds_text 5 store_A20
          (snd (get_combined_metrics list_random seconds_text 5 store_A20 draws)))) =
     [(''m'', [\<lparr>nv_name = ''A'', nv_ip = ''10.0.0.1'', nv_status = HEALTHY,
                nv_balance = BALANCED, nv_load_rate = 9/20, nv_tokens = 5050,
                nv_inference_time = 55, nv_weight = 20\<rparr>])]"
  by (simp add: first_read second_read)

text \<open>
  C4, amended. The per-node snapshot is a function of the store, the global snapshot a
  function of the store and the time of the read; and for every store and time at which
  no reported numeric field is 0, the combined snapshot is these two, whatever the
  random generator and its state, which it leaves as it was. So two reads of such a
  store at the same time are equal.
\<close>

theorem combined_snapshot_without_zero_field:
  "no_zero_field strftime current_time st \<Longrightarrow>
   get_combined_metrics R strftime current_time st g =
     (\<lparr>global_metrics = get_global_metrics strftime current_time st,
       node_metrics = get_service_metrics st\<rparr>, g)"
  unfolding get_combined_metrics_def
proof (induction st)
  case Nil
  then show ?case by (simp add: get_global_metrics_def get_service_metrics_def)
next
  case (Cons p st)
  obtain model_name insts where p: "p = (model_name, insts)" by (cases p)
  from Cons.prems have n: "list_all node_nonzero (map node_view_of (sorted_nodes insts))"
    and gl: "global_nonzero (global_view_of strftime current_time insts)"
    and rest: "no_zero_field strftime current_time st"
    by (simp_all add: no_zero_field_def get_service_metrics_def get_global_metrics_def p)
  show ?case
    using Cons.IH [OF rest] node_views_random_nonzero [OF n, of R g]
      global_view_random_nonzero [OF gl, of R g]
    by (simp add: p get_global_metrics_def get_service_metrics_def)
qed

text \<open>The theorem at the store of an instance with two commits, none of whose fields is 0.\<close>

theorem combined_snapshot_without_zero_field_witness:
  "no_zero_field seconds_text 5 busy_store \<and>
   get_combined_metrics list_random seconds_text 5 busy_store draws =
     (\<lparr>global_metrics = get_global_metrics seconds_text 5 busy_store,
       node_metrics = get_service_metrics busy_store\<rparr>, draws)"
  using busy_nz combined_snapshot_without_zero_field [OF busy_nz, of list_random draws]
  by simp


end
